theory Spec2Isabelle
  imports Main "HOL-Library.Multiset"
begin

section \<open>Effects of user callbacks\<close>

text \<open>
  The library is a set of TypeScript wrapper types whose operations call functions
  supplied by the user (mappers, side effects, wrapped functions). Whether such a
  function is called, how often and in which order is part of what the library
  promises, so a call of a user function is modelled with its effect on an explicit
  world state \<open>'s\<close> (a counter, a log, anything the function closes over): it takes
  the state and returns its result with the new state.

  The operations of the synchronous types (\<open>Validation\<close>, \<open>Either\<close>) catch nothing: a
  callback that throws ends the operation without a result. They are modelled for
  callbacks that return.
\<close>

type_synonym ('s, 'b) effect = "'s \<Rightarrow> 'b \<times> 's"

section \<open>Either\<close>

text \<open>
  The module \<^verbatim>\<open>either\<close> is imported by the sources below but its implementation is not
  among them. What the sources use of it is modelled from the specification.
\<close>

text \<open>Modelled from the spec: the type \<^verbatim>\<open>Either<E, T>\<close>, a tagged union of exactly one
  of \<^verbatim>\<open>{ right: T }\<close> or \<^verbatim>\<open>{ left: E }\<close>.\<close>

datatype ('e, 't) either = Left 'e | Right 't

text \<open>Modelled from the spec: the constructor \<^verbatim>\<open>left\<close> of \<^verbatim>\<open>either/constructors.ts\<close>,
  which creates the failed \<open>Either\<close> from a raw error.\<close>

definition left :: "'e \<Rightarrow> ('e, 't) either" where
  "left error = Left error"

text \<open>Modelled from the spec: the constructor \<^verbatim>\<open>right\<close> of \<^verbatim>\<open>either/constructors.ts\<close>,
  which creates the succeeded \<open>Either\<close> from a raw value.\<close>

definition right :: "'t \<Rightarrow> ('e, 't) either" where
  "right v = Right v"

text \<open>Modelled from the spec: \<^verbatim>\<open>Either.match(onLeft, onRight)\<close>, which behaves
  analogously to \<open>Validation\<close>'s: exhaustive case analysis, returning whichever branch's
  result.\<close>

definition either_match :: "('e, 't) either \<Rightarrow> ('e \<Rightarrow> 'u) \<Rightarrow> ('t \<Rightarrow> 'u) \<Rightarrow> 'u" where
  "either_match this onLeft onRight =
     (case this of Left l \<Rightarrow> onLeft l | Right r \<Rightarrow> onRight r)"

text \<open>Modelled from the spec: \<^verbatim>\<open>Either.flatMap(mapper)\<close>, which short-circuits on the
  left branch (the mapper is not invoked) and otherwise is the \<open>Either\<close> the mapper
  returns for the value.\<close>

definition either_flatMap ::
  "('e, 't) either \<Rightarrow> ('t \<Rightarrow> ('s, ('e, 'u) either) effect) \<Rightarrow> ('s, ('e, 'u) either) effect" where
  "either_flatMap this mapper =
     either_match this (\<lambda>l s. (Left l, s)) (\<lambda>r s. mapper r s)"

text \<open>Modelled from the spec: \<^verbatim>\<open>Either.ap(arg)\<close>, which short-circuits on the first
  failure: on two lefts it returns only the receiver's left, with no accumulation; a left
  receiver wins over any argument, a right receiver with a left argument gives the
  argument's left, and two rights apply the function to the value.\<close>

definition either_ap ::
  "('e, 'a \<Rightarrow> ('s, 'u) effect) either \<Rightarrow> ('e, 'a) either \<Rightarrow> ('s, ('e, 'u) either) effect" where
  "either_ap this arg =
     either_match this
       (\<lambda>l s. (Left l, s))
       (\<lambda>fn. either_match arg
                (\<lambda>l s. (Left l, s))
                (\<lambda>a s. let (u, s') = fn a s in (Right u, s')))"

text \<open>Modelled from the spec: the record that \<^verbatim>\<open>Either.toResult()\<close> returns, of which the
  sources show only the use in \<^verbatim>\<open>all\<close>: its flag \<^verbatim>\<open>ok\<close> is false, with the field
  \<^verbatim>\<open>error\<close>, for an error outcome (\<open>Failure\<close>) and true, with the field \<^verbatim>\<open>value\<close>, for a
  success outcome (\<open>Success\<close>).\<close>

datatype ('e, 't) result = Failure 'e | Success 't

text \<open>Modelled from the spec: \<^verbatim>\<open>Either.toResult()\<close>, which turns a left into the record
  that is not ok and a right into the record that is ok.\<close>

definition toResult :: "('e, 't) either \<Rightarrow> ('e, 't) result" where
  "toResult this = either_match this (\<lambda>l. Failure l) (\<lambda>r. Success r)"

section \<open>Validation\<close>

subsection \<open>validation/model.ts, validation/validation.ts\<close>

text \<open>
  \<^verbatim>\<open>ValidationV<E, T> = { valid: T } | { invalid: readonly E[] }\<close>.
  \<^verbatim>\<open>createValidation(value)\<close> returns an object whose methods close over \<open>value\<close>
  and nothing else, so the object is represented by \<open>value\<close> itself.
\<close>

datatype ('e, 't) validationV = Valid (the_valid: 't) | Invalid (the_invalid: "'e list")

type_synonym ('e, 't) validation = "('e, 't) validationV"

definition createValidation :: "('e, 't) validationV \<Rightarrow> ('e, 't) validation" where
  "createValidation v = v"

text \<open>\<^verbatim>\<open>isValid(value)\<close>: the value has the key \<^verbatim>\<open>valid\<close>.\<close>

fun isValid :: "('e, 't) validationV \<Rightarrow> bool" where
  "isValid (Valid v) = True"
| "isValid (Invalid errors) = False"

text \<open>\<^verbatim>\<open>match: (onInvalid, onValid) => isValid(value) ? onValid(value.valid) : onInvalid(value.invalid)\<close>\<close>

definition validation_match ::
  "('e, 't) validation \<Rightarrow> ('e list \<Rightarrow> 'u) \<Rightarrow> ('t \<Rightarrow> 'u) \<Rightarrow> 'u" where
  "validation_match this onInvalid onValid =
     (if isValid this then onValid (the_valid this) else onInvalid (the_invalid this))"

text \<open>
  \<^verbatim>\<open>map\<close>: on the invalid branch the same instance is returned (\<^verbatim>\<open>forceCast\<close> only
  changes its static type), on the valid branch the mapper is called once.
\<close>

definition validation_map ::
  "('e, 't) validation \<Rightarrow> ('t \<Rightarrow> ('s, 'u) effect) \<Rightarrow> ('s, ('e, 'u) validation) effect" where
  "validation_map this mapper =
     validation_match this
       (\<lambda>errors s. (Invalid errors, s))
       (\<lambda>v s. let (u, s') = mapper v s in (createValidation (Valid u), s'))"

text \<open>
  \<^verbatim>\<open>ap\<close>: the receiver holds a function, the argument its argument. The error type of
  the result is the union \<^verbatim>\<open>E | EE\<close>; both sides are taken at one error type \<open>'e\<close>.
\<close>

definition validation_ap ::
  "('e, 'a \<Rightarrow> ('s, 'u) effect) validation \<Rightarrow> ('e, 'a) validation \<Rightarrow>
     ('s, ('e, 'u) validation) effect" where
  "validation_ap this arg =
     validation_match this
       (\<lambda>errors1.
          validation_match arg
            (\<lambda>errors2 s. (createValidation (Invalid (errors1 @ errors2)), s))
            (\<lambda>_ s. (createValidation (Invalid errors1), s)))
       (\<lambda>fn.
          validation_match arg
            (\<lambda>errors2 s. (createValidation (Invalid errors2), s))
            (\<lambda>v s. let (u, s') = fn v s in (createValidation (Valid u), s')))"

subsection \<open>validation/constructors.ts\<close>

definition valid :: "'t \<Rightarrow> ('e, 't) validation" where
  "valid v = createValidation (Valid v)"

definition invalid :: "'e \<Rightarrow> ('e, 't) validation" where
  "invalid error = createValidation (Invalid [error])"

text \<open>\<^verbatim>\<open>fromEither = either.match((error) => invalid(error), (value) => valid(value))\<close>\<close>

definition fromEither :: "('e, 't) either \<Rightarrow> ('e, 't) validation" where
  "fromEither ei = either_match ei (\<lambda>error. invalid error) (\<lambda>v. valid v)"

subsection \<open>validation/helpers.ts\<close>

text \<open>\<^verbatim>\<open>map2 = valA.map((a) => (b) => mapper(a, b)).ap(valB)\<close>: building the closure has no effect.\<close>

definition map2 ::
  "('e, 'a) validation \<Rightarrow> ('e, 'b) validation \<Rightarrow> ('a \<Rightarrow> 'b \<Rightarrow> ('s, 'c) effect) \<Rightarrow>
     ('s, ('e, 'c) validation) effect" where
  "map2 valA valB mapper s =
     (let (vf, s1) = validation_map valA (\<lambda>a s. (\<lambda>b. mapper a b, s)) s
      in validation_ap vf valB s1)"

definition map3 ::
  "('e, 'a) validation \<Rightarrow> ('e, 'b) validation \<Rightarrow> ('e, 'c) validation \<Rightarrow>
     ('a \<Rightarrow> 'b \<Rightarrow> 'c \<Rightarrow> ('s, 'd) effect) \<Rightarrow> ('s, ('e, 'd) validation) effect" where
  "map3 valA valB valC mapper s =
     (let (vf, s1) = validation_map valA (\<lambda>a s. (\<lambda>b s. (\<lambda>c. mapper a b c, s), s)) s;
          (vg, s2) = validation_ap vf valB s1
      in validation_ap vg valC s2)"

text \<open>
  \<^verbatim>\<open>traverse\<close>: the \<^verbatim>\<open>for (const a of as)\<close> loop with its two arrays \<open>errors\<close> and
  \<open>values\<close>; \<^verbatim>\<open>push\<close> appends at the end. The loop has no exit before the last item.
\<close>

fun traverse_loop ::
  "'a list \<Rightarrow> ('a \<Rightarrow> ('s, ('e, 'b) validation) effect) \<Rightarrow> 'e list \<Rightarrow> 'b list \<Rightarrow>
     ('s, 'e list \<times> 'b list) effect" where
  "traverse_loop [] f errors vals s = ((errors, vals), s)"
| "traverse_loop (a # as) f errors vals s =
     (let (r, s1) = f a s
      in validation_match r
           (\<lambda>errs. traverse_loop as f (errors @ errs) vals s1)
           (\<lambda>v. traverse_loop as f errors (vals @ [v]) s1))"

definition traverse ::
  "'a list \<Rightarrow> ('a \<Rightarrow> ('s, ('e, 'b) validation) effect) \<Rightarrow> ('s, ('e, 'b list) validation) effect" where
  "traverse as f s =
     (let ((errors, vals), s') = traverse_loop as f [] [] s
      in (if length errors > 0 then createValidation (Invalid errors)
          else createValidation (Valid vals), s'))"

text \<open>\<^verbatim>\<open>sequence = traverse(validations, (v) => v)\<close>\<close>

definition sequence :: "('e, 't) validation list \<Rightarrow> ('s, ('e, 't list) validation) effect" where
  "sequence validations = traverse validations (\<lambda>v s. (v, s))"

section \<open>Promises\<close>

text \<open>
  \<open>Task\<close> and \<open>TaskEither\<close> rest on the host's promises, of which they use
  \<^verbatim>\<open>Promise.resolve\<close>, \<^verbatim>\<open>then\<close> with one reaction, and \<^verbatim>\<open>Promise.all\<close>.

  A promise settles once, resolved with a value or rejected with an exception. A
  promise in flight is modelled by what remains of its asynchronous work: a function
  from the world at the time the work goes on to the settlement and the world after it.
  The work of one promise is taken as one step; promises in flight at the same time take
  their steps in an order the host decides, which the operations that wait for several
  promises receive as a parameter. Every promise is taken to settle.

  A synchronous call inside asynchronous code either returns or throws, and a throw
  inside a reaction rejects the derived promise, so the callbacks of \<open>Task\<close> and
  \<open>TaskEither\<close> are modelled with both outcomes: \<open>Inl\<close> is the exception thrown,
  \<open>Inr\<close> the value returned.
\<close>

datatype ('x, 'a) settled = Resolved 'a | Rejected 'x

type_synonym ('s, 'x, 'a) promise = "('s, ('x, 'a) settled) effect"

type_synonym ('s, 'x, 'b) call = "('s, 'x + 'b) effect"

definition returns :: "'b \<Rightarrow> ('s, 'x, 'b) call" where
  "returns b s = (Inr b, s)"

text \<open>Two calls one after the other; an exception of the first skips the second.\<close>

definition and_then :: "('s, 'x, 'a) call \<Rightarrow> ('a \<Rightarrow> ('s, 'x, 'b) call) \<Rightarrow> ('s, 'x, 'b) call" where
  "and_then c k s = (case c s of (Inl x, s1) \<Rightarrow> (Inl x, s1) | (Inr a, s1) \<Rightarrow> k a s1)"

text \<open>\<^verbatim>\<open>Array.prototype.map\<close> with a callback that may throw: the items in order, no
  further call after a throw.\<close>

fun array_map :: "('a \<Rightarrow> ('s, 'x, 'b) call) \<Rightarrow> 'a list \<Rightarrow> ('s, 'x, 'b list) call" where
  "array_map f [] = returns []"
| "array_map f (a # as) = and_then (f a) (\<lambda>b. and_then (array_map f as) (\<lambda>bs. returns (b # bs)))"

text \<open>\<^verbatim>\<open>Promise.resolve(value)\<close> for a value that is not a thenable, such as an
  \<open>Either\<close>: a promise resolved with the value.\<close>

definition promise_resolve :: "'a \<Rightarrow> ('s, 'x, 'a) promise" where
  "promise_resolve v s = (Resolved v, s)"

text \<open>
  \<^verbatim>\<open>Promise.resolve(value)\<close> for any value. A value handed to it is either a thenable (a
  promise), which is adopted, so that the result settles as the thenable does, or a plain
  value, with which the result is resolved. A thenable is represented as every promise
  here, by what remains of its work. A promise never resolves with a thenable, so what a
  reaction receives is a plain value.
\<close>

datatype ('s, 'x, 'a) jsValue = Plain 'a | Thenable "('s, 'x, 'a) promise"

fun promise_resolve_any :: "('s, 'x, 'a) jsValue \<Rightarrow> ('s, 'x, 'a) promise" where
  "promise_resolve_any (Plain v) = promise_resolve v"
| "promise_resolve_any (Thenable p) = p"

text \<open>
  \<^verbatim>\<open>p.then(onFulfilled)\<close>: a rejection of \<open>p\<close> passes through and the reaction is not
  called; otherwise the reaction is called with the value, and the derived promise is
  rejected with what the reaction throws, resolved with the value it returns
  (\<open>then_value\<close>), or follows the promise it returns (\<open>then_promise\<close>).
\<close>

definition then_value ::
  "('s, 'x, 'a) promise \<Rightarrow> ('a \<Rightarrow> ('s, 'x, 'b) call) \<Rightarrow> ('s, 'x, 'b) promise" where
  "then_value p onFulfilled s =
     (case p s of
        (Rejected x, s1) \<Rightarrow> (Rejected x, s1)
      | (Resolved v, s1) \<Rightarrow>
          (case onFulfilled v s1 of
             (Inl x, s2) \<Rightarrow> (Rejected x, s2)
           | (Inr b, s2) \<Rightarrow> (Resolved b, s2)))"

definition then_promise ::
  "('s, 'x, 'a) promise \<Rightarrow> ('a \<Rightarrow> ('s, 'x, ('s, 'x, 'b) promise) call) \<Rightarrow> ('s, 'x, 'b) promise" where
  "then_promise p onFulfilled s =
     (case p s of
        (Rejected x, s1) \<Rightarrow> (Rejected x, s1)
      | (Resolved v, s1) \<Rightarrow>
          (case onFulfilled v s1 of
             (Inl x, s2) \<Rightarrow> (Rejected x, s2)
           | (Inr q, s2) \<Rightarrow> q s2))"

text \<open>
  \<^verbatim>\<open>Promise.all\<close> of a list of promises. The order in which the promises settle is the
  list \<open>ord\<close> of their indices. A value is stored under the index of its promise, the
  combined promise resolves with the values by index once every promise has resolved, and
  it is rejected with the first rejection in time. The promises still in flight at that
  moment are not cancelled; what they do later is outside the settlement modelled here.
\<close>

definition schedule :: "nat list \<Rightarrow> nat \<Rightarrow> bool" where
  "schedule ord n \<longleftrightarrow> mset ord = mset [0..<n]"

fun settle_all ::
  "nat list \<Rightarrow> ('s, 'x, 'a) promise list \<Rightarrow> (nat \<times> 'a) list \<Rightarrow> ('s, 'x, (nat \<times> 'a) list) promise" where
  "settle_all [] ps stored s = (Resolved stored, s)"
| "settle_all (i # ord) ps stored s =
     (case (ps ! i) s of
        (Rejected x, s1) \<Rightarrow> (Rejected x, s1)
      | (Resolved v, s1) \<Rightarrow> settle_all ord ps (stored @ [(i, v)]) s1)"

definition promise_all :: "nat list \<Rightarrow> ('s, 'x, 'a) promise list \<Rightarrow> ('s, 'x, 'a list) promise" where
  "promise_all ord ps s =
     (case settle_all ord ps [] s of
        (Rejected x, s1) \<Rightarrow> (Rejected x, s1)
      | (Resolved stored, s1) \<Rightarrow> (Resolved (map snd (sort_key fst stored)), s1))"

text \<open>\<^verbatim>\<open>Promise.all\<close> of a pair of promises of different types: one of the two settles first.\<close>

datatype pair_order = FirstSettlesFirst | SecondSettlesFirst

definition promise_all2 ::
  "pair_order \<Rightarrow> ('s, 'x, 'a) promise \<Rightarrow> ('s, 'x, 'b) promise \<Rightarrow> ('s, 'x, 'a \<times> 'b) promise" where
  "promise_all2 ord p q s =
     (case ord of
        FirstSettlesFirst \<Rightarrow>
          (case p s of
             (Rejected x, s1) \<Rightarrow> (Rejected x, s1)
           | (Resolved a, s1) \<Rightarrow>
               (case q s1 of
                  (Rejected x, s2) \<Rightarrow> (Rejected x, s2)
                | (Resolved b, s2) \<Rightarrow> (Resolved (a, b), s2)))
      | SecondSettlesFirst \<Rightarrow>
          (case q s of
             (Rejected x, s1) \<Rightarrow> (Rejected x, s1)
           | (Resolved b, s1) \<Rightarrow>
               (case p s1 of
                  (Rejected x, s2) \<Rightarrow> (Rejected x, s2)
                | (Resolved a, s2) \<Rightarrow> (Resolved (a, b), s2))))"

text \<open>
  What \<^verbatim>\<open>await c\<close> observes of a call \<open>c\<close> that returns a promise: the settlement of the
  promise, an exception of the call itself being observed as that exception.
\<close>

definition await :: "('s, 'x, ('s, 'x, 'a) promise) call \<Rightarrow> ('s, 'x, 'a) promise" where
  "await c s = (case c s of (Inl x, s1) \<Rightarrow> (Rejected x, s1) | (Inr p, s1) \<Rightarrow> p s1)"

section \<open>Task\<close>

subsection \<open>task/model.ts, task/task.ts\<close>

text \<open>
  \<^verbatim>\<open>TaskValue<T> = () => Promise<T>\<close>: a callable which, when invoked, starts the
  asynchronous work and returns its promise. \<^verbatim>\<open>createTask(thunk)\<close> returns an object
  whose methods close over \<open>thunk\<close> and nothing else.
\<close>

type_synonym ('s, 'x, 'a) taskValue = "('s, 'x, ('s, 'x, 'a) promise) call"

datatype ('s, 'x, 'a) task = Task "('s, 'x, 'a) taskValue"

definition createTask :: "('s, 'x, 'a) taskValue \<Rightarrow> ('s, 'x, 'a) task" where
  "createTask thunk = Task thunk"

text \<open>\<^verbatim>\<open>run: () => thunk()\<close>\<close>

fun task_run :: "('s, 'x, 'a) task \<Rightarrow> ('s, 'x, ('s, 'x, 'a) promise) call" where
  "task_run (Task thunk) = thunk"

text \<open>\<^verbatim>\<open>map: (mapper) => createTask(() => thunk().then(mapper))\<close>\<close>

fun task_map :: "('s, 'x, 'a) task \<Rightarrow> ('a \<Rightarrow> ('s, 'x, 'u) call) \<Rightarrow> ('s, 'x, 'u) task" where
  "task_map (Task thunk) mapper =
     createTask (and_then thunk (\<lambda>p. returns (then_value p mapper)))"

text \<open>\<^verbatim>\<open>ap: createTask(() => Promise.all([this.run(), arg.run()]).then(([fn, a]) => fn(a)))\<close>:
  the array literal calls \<^verbatim>\<open>this.run()\<close>, then \<^verbatim>\<open>arg.run()\<close>.\<close>

definition task_ap ::
  "pair_order \<Rightarrow> ('s, 'x, 'a \<Rightarrow> ('s, 'x, 'u) call) task \<Rightarrow> ('s, 'x, 'a) task \<Rightarrow> ('s, 'x, 'u) task" where
  "task_ap ord this arg =
     createTask
       (and_then (task_run this) (\<lambda>p.
        and_then (task_run arg) (\<lambda>q.
        returns (then_value (promise_all2 ord p q) (\<lambda>(fn, a). fn a)))))"

text \<open>\<^verbatim>\<open>zip: (taskA) => t.map((value) => (a) => [value, a]).ap(taskA)\<close>\<close>

definition task_zip ::
  "pair_order \<Rightarrow> ('s, 'x, 't) task \<Rightarrow> ('s, 'x, 'a) task \<Rightarrow> ('s, 'x, 't \<times> 'a) task" where
  "task_zip ord t taskA =
     task_ap ord (task_map t (\<lambda>v. returns (\<lambda>a. returns (v, a)))) taskA"

text \<open>\<^verbatim>\<open>flatMap: (mapper) => createTask(() => thunk().then((value) => mapper(value).run()))\<close>\<close>

fun task_flatMap ::
  "('s, 'x, 'a) task \<Rightarrow> ('a \<Rightarrow> ('s, 'x, ('s, 'x, 'u) task) call) \<Rightarrow> ('s, 'x, 'u) task" where
  "task_flatMap (Task thunk) mapper =
     createTask
       (and_then thunk (\<lambda>p.
        returns (then_promise p (\<lambda>v. and_then (mapper v) (\<lambda>t. task_run t)))))"

text \<open>\<^verbatim>\<open>flatten: this.flatMap((value) => value)\<close>\<close>

definition task_flatten :: "('s, 'x, ('s, 'x, 'u) task) task \<Rightarrow> ('s, 'x, 'u) task" where
  "task_flatten this = task_flatMap this (\<lambda>v. returns v)"

text \<open>\<^verbatim>\<open>tap: (sideEffect) => createTask(() => thunk().then((value) => { sideEffect(value); return value; }))\<close>\<close>

fun task_tap :: "('s, 'x, 'a) task \<Rightarrow> ('a \<Rightarrow> ('s, 'x, 'r) call) \<Rightarrow> ('s, 'x, 'a) task" where
  "task_tap (Task thunk) sideEffect =
     createTask
       (and_then thunk (\<lambda>p.
        returns (then_value p (\<lambda>v. and_then (sideEffect v) (\<lambda>_. returns v)))))"

subsection \<open>task/constructors.ts\<close>

text \<open>\<^verbatim>\<open>task = (value) => createTask(() => Promise.resolve(value))\<close>, for any value: a
  thenable given as the value is adopted by \<^verbatim>\<open>Promise.resolve\<close>.\<close>

definition task :: "('s, 'x, 'a) jsValue \<Rightarrow> ('s, 'x, 'a) task" where
  "task v = createTask (returns (promise_resolve_any v))"

definition fromPromise :: "('s, 'x, 'a) taskValue \<Rightarrow> ('s, 'x, 'a) task" where
  "fromPromise thunk = createTask thunk"

subsection \<open>task/helpers.ts\<close>

text \<open>\<^verbatim>\<open>all = (tasks) => createTask(() => Promise.all(tasks.map((t) => t.run())))\<close>\<close>

definition task_all :: "nat list \<Rightarrow> ('s, 'x, 'a) task list \<Rightarrow> ('s, 'x, 'a list) task" where
  "task_all ord tasks =
     createTask (and_then (array_map task_run tasks) (\<lambda>ps. returns (promise_all ord ps)))"

text \<open>\<^verbatim>\<open>traverse = (items, mapper) => all(items.map(mapper))\<close>: the mapper is called on
  every item when \<^verbatim>\<open>traverse\<close> is called, before any task runs.\<close>

definition task_traverse ::
  "nat list \<Rightarrow> 'i list \<Rightarrow> ('i \<Rightarrow> ('s, 'x, ('s, 'x, 'a) task) call) \<Rightarrow>
     ('s, 'x, ('s, 'x, 'a list) task) call" where
  "task_traverse ord items mapper =
     and_then (array_map mapper items) (\<lambda>tasks. returns (task_all ord tasks))"

text \<open>\<^verbatim>\<open>sequence = (tasks) => all(tasks)\<close>\<close>

definition task_sequence :: "nat list \<Rightarrow> ('s, 'x, 'a) task list \<Rightarrow> ('s, 'x, 'a list) task" where
  "task_sequence ord tasks = task_all ord tasks"

section \<open>TaskEither\<close>

subsection \<open>taskEither/model.ts, taskEither/taskEither.ts\<close>

text \<open>\<^verbatim>\<open>TaskEitherValue<E, T> = () => Promise<Either<E, T>>\<close>\<close>

type_synonym ('s, 'x, 'e, 't) taskEitherValue = "('s, 'x, ('s, 'x, ('e, 't) either) promise) call"

datatype ('s, 'x, 'e, 't) taskEither = TaskEither "('s, 'x, 'e, 't) taskEitherValue"

definition createTaskEither :: "('s, 'x, 'e, 't) taskEitherValue \<Rightarrow> ('s, 'x, 'e, 't) taskEither" where
  "createTaskEither thunk = TaskEither thunk"

text \<open>\<^verbatim>\<open>run: () => thunk()\<close>\<close>

fun te_run :: "('s, 'x, 'e, 't) taskEither \<Rightarrow> ('s, 'x, ('s, 'x, ('e, 't) either) promise) call" where
  "te_run (TaskEither thunk) = thunk"

text \<open>
  \<^verbatim>\<open>flatMap: (mapper) => createTaskEither(() => thunk().then((either) => either.match(
     (leftVal) => Promise.resolve(left(leftVal)),
     (rightVal) => mapper(rightVal).run())))\<close>
\<close>

fun te_flatMap ::
  "('s, 'x, 'e, 't) taskEither \<Rightarrow> ('t \<Rightarrow> ('s, 'x, ('s, 'x, 'e, 'u) taskEither) call) \<Rightarrow>
     ('s, 'x, 'e, 'u) taskEither" where
  "te_flatMap (TaskEither thunk) mapper =
     createTaskEither
       (and_then thunk (\<lambda>p.
        returns (then_promise p (\<lambda>either.
          either_match either
            (\<lambda>leftVal. returns (promise_resolve (left leftVal)))
            (\<lambda>rightVal. and_then (mapper rightVal) (\<lambda>te. te_run te))))))"

text \<open>
  \<^verbatim>\<open>map: (mapper) => te.flatMap((rightVal) =>
     createTaskEither(() => Promise.resolve(right(mapper(rightVal)))))\<close>:
  the mapper is called when the inner callable is invoked.
\<close>

definition te_map ::
  "('s, 'x, 'e, 't) taskEither \<Rightarrow> ('t \<Rightarrow> ('s, 'x, 'u) call) \<Rightarrow> ('s, 'x, 'e, 'u) taskEither" where
  "te_map te mapper =
     te_flatMap te (\<lambda>rightVal.
       returns (createTaskEither
         (and_then (mapper rightVal) (\<lambda>u. returns (promise_resolve (right u))))))"

text \<open>
  \<^verbatim>\<open>ap: createTaskEither(() => Promise.all([this.run(), arg.run()]).then(
     ([eitherFn, eitherA]) => eitherFn.ap(eitherA)))\<close>
\<close>

definition te_ap ::
  "pair_order \<Rightarrow> ('s, 'x, 'e, 'a \<Rightarrow> ('s, 'u) effect) taskEither \<Rightarrow> ('s, 'x, 'e, 'a) taskEither \<Rightarrow>
     ('s, 'x, 'e, 'u) taskEither" where
  "te_ap ord this arg =
     createTaskEither
       (and_then (te_run this) (\<lambda>p.
        and_then (te_run arg) (\<lambda>q.
        returns (then_value (promise_all2 ord p q)
          (\<lambda>(eitherFn, eitherA) s. let (r, s') = either_ap eitherFn eitherA s in (Inr r, s'))))))"

text \<open>\<^verbatim>\<open>zip: (other) => te.map((value) => (a) => [value, a]).ap(other)\<close>\<close>

definition te_zip ::
  "pair_order \<Rightarrow> ('s, 'x, 'e, 't) taskEither \<Rightarrow> ('s, 'x, 'e, 'a) taskEither \<Rightarrow>
     ('s, 'x, 'e, 't \<times> 'a) taskEither" where
  "te_zip ord te other =
     te_ap ord (te_map te (\<lambda>v. returns (\<lambda>a s. ((v, a), s)))) other"

text \<open>Modelled from the spec: the constructor \<^verbatim>\<open>taskEither\<close> of
  \<^verbatim>\<open>taskEither/constructors.ts\<close>, whose result resolves to \<open>right(value)\<close>; written as
  \<^verbatim>\<open>map\<close> above writes its inner \<open>TaskEither\<close>.\<close>

definition taskEither :: "'t \<Rightarrow> ('s, 'x, 'e, 't) taskEither" where
  "taskEither v = createTaskEither (returns (promise_resolve (right v)))"

text \<open>Modelled from the spec: the constructor \<^verbatim>\<open>taskLeft\<close> of
  \<^verbatim>\<open>taskEither/constructors.ts\<close>, whose result resolves to \<open>left(error)\<close>.\<close>

definition taskLeft :: "'e \<Rightarrow> ('s, 'x, 'e, 't) taskEither" where
  "taskLeft error = createTaskEither (returns (promise_resolve (left error)))"

subsection \<open>taskEither/helpers.ts\<close>

text \<open>
  \<^verbatim>\<open>all\<close>: the reaction on \<^verbatim>\<open>Promise.all(taskEithers.map((te) => te.run()))\<close> is the loop
  \<^verbatim>\<open>for (const either of eithers)\<close> over the resolved outcomes, with the array \<open>out\<close>;
  it returns from inside the loop at the first outcome that is not ok.
\<close>

fun all_loop :: "('e, 't) either list \<Rightarrow> 't list \<Rightarrow> ('e, 't list) either" where
  "all_loop [] out = right out"
| "all_loop (either # eithers) out =
     (case toResult either of
        Failure error \<Rightarrow> left error
      | Success v \<Rightarrow> all_loop eithers (out @ [v]))"

definition te_all ::
  "nat list \<Rightarrow> ('s, 'x, 'e, 't) taskEither list \<Rightarrow> ('s, 'x, 'e, 't list) taskEither" where
  "te_all ord taskEithers =
     createTaskEither
       (and_then (array_map te_run taskEithers) (\<lambda>ps.
        returns (then_value (promise_all ord ps) (\<lambda>eithers. returns (all_loop eithers [])))))"

section \<open>Vocabulary of the properties\<close>

subsection \<open>Validation\<close>

text \<open>The invariant of the data model: an invalid \<open>Validation\<close> carries at least one error.\<close>

definition nonEmptyErrors :: "('e, 't) validation \<Rightarrow> bool" where
  "nonEmptyErrors v = (case v of Valid _ \<Rightarrow> True | Invalid errors \<Rightarrow> errors \<noteq> [])"

text \<open>A function applied to every item of a list, in order, whatever it returns: the
  results in item order and the world after the last call.\<close>

fun produced :: "'a list \<Rightarrow> ('a \<Rightarrow> ('s, 'r) effect) \<Rightarrow> ('s, 'r list) effect" where
  "produced [] f s = ([], s)"
| "produced (a # as) f s =
     (let (r, s1) = f a s; (rs, s2) = produced as f s1 in (r # rs, s2))"

text \<open>What one \<open>Validation\<close> contributes to the errors and to the values.\<close>

fun errorsOf :: "('e, 't) validation \<Rightarrow> 'e list" where
  "errorsOf (Valid v) = []"
| "errorsOf (Invalid errors) = errors"

fun valuesOf :: "('e, 't) validation \<Rightarrow> 't list" where
  "valuesOf (Valid v) = [v]"
| "valuesOf (Invalid errors) = []"

subsection \<open>Promises in flight\<close>

text \<open>
  What happens to the promises handed to \<^verbatim>\<open>Promise.all\<close>: each settles, in the order
  \<open>ord\<close>. \<open>settle_each\<close> gives the settlement of every promise with its index, in the
  order of settling, \<open>settle_pair\<close> the settlements of a pair.
\<close>

fun settle_each ::
  "nat list \<Rightarrow> ('s, 'x, 'a) promise list \<Rightarrow> ('s, (nat \<times> ('x, 'a) settled) list) effect" where
  "settle_each [] ps s = ([], s)"
| "settle_each (i # ord) ps s =
     (let (r, s1) = (ps ! i) s; (rs, s2) = settle_each ord ps s1 in ((i, r) # rs, s2))"

definition settle_pair ::
  "pair_order \<Rightarrow> ('s, 'x, 'a) promise \<Rightarrow> ('s, 'x, 'b) promise \<Rightarrow>
     ('s, ('x, 'a) settled \<times> ('x, 'b) settled) effect" where
  "settle_pair ord p q s =
     (case ord of
        FirstSettlesFirst \<Rightarrow> (let (a, s1) = p s; (b, s2) = q s1 in ((a, b), s2))
      | SecondSettlesFirst \<Rightarrow> (let (b, s1) = q s; (a, s2) = p s1 in ((a, b), s2)))"

subsection \<open>Counting invocations\<close>

text \<open>
  A callable under observation, as a test spy wraps it: the world gets a counter in front,
  which every invocation of the callable increments and nothing else touches.
\<close>

definition spy ::
  "('s, 'x, ('s, 'x, 'a) promise) call \<Rightarrow> (nat \<times> 's, 'x, (nat \<times> 's, 'x, 'a) promise) call" where
  "spy thunk = (\<lambda>(n, s).
     case thunk s of
       (Inl x, s') \<Rightarrow> (Inl x, (Suc n, s'))
     | (Inr p, s') \<Rightarrow> (Inr (\<lambda>(m, t). case p t of (r, t') \<Rightarrow> (r, (m, t'))), (Suc n, s')))"

text \<open>The world after \<open>n\<close> times \<^verbatim>\<open>await t.run()\<close>, one after the other.\<close>

fun task_run_times :: "nat \<Rightarrow> ('s, 'x, 'a) task \<Rightarrow> 's \<Rightarrow> 's" where
  "task_run_times 0 t s = s"
| "task_run_times (Suc n) t s = task_run_times n t (snd (await (task_run t) s))"

fun te_run_times :: "nat \<Rightarrow> ('s, 'x, 'e, 't) taskEither \<Rightarrow> 's \<Rightarrow> 's" where
  "te_run_times 0 te s = s"
| "te_run_times (Suc n) te s = te_run_times n te (snd (await (te_run te) s))"

subsection \<open>Observing the start and the settling of callables\<close>

text \<open>
  The world as a log of events. A callable under observation (\<open>probe\<close>) has a label and a
  given outcome: its invocation logs \<open>Invoked\<close> and returns a promise, which logs \<open>Settled\<close>
  when it settles with that outcome. \<open>task_probes\<close> and \<open>te_probes\<close> are lists of such
  callables, labelled by their index; \<open>pair_events\<close> is the order of the two settlings of
  a pair.
\<close>

datatype event = Invoked nat | Settled nat

definition settles :: "nat \<Rightarrow> ('x, 'a) settled \<Rightarrow> (event list, 'x, 'a) promise" where
  "settles l r log = (r, log @ [Settled l])"

definition probe :: "nat \<Rightarrow> ('x, 'a) settled \<Rightarrow> (event list, 'x, (event list, 'x, 'a) promise) call" where
  "probe l r log = (Inr (settles l r), log @ [Invoked l])"

definition task_probes :: "('x, 'a) settled list \<Rightarrow> (event list, 'x, 'a) task list" where
  "task_probes rs = map (\<lambda>i. createTask (probe i (rs ! i))) [0..<length rs]"

definition te_probes ::
  "('x, ('e, 't) either) settled list \<Rightarrow> (event list, 'x, 'e, 't) taskEither list" where
  "te_probes rs = map (\<lambda>i. createTaskEither (probe i (rs ! i))) [0..<length rs]"

definition pair_events :: "pair_order \<Rightarrow> event list" where
  "pair_events ord =
     (case ord of
        FirstSettlesFirst \<Rightarrow> [Settled 0, Settled 1]
      | SecondSettlesFirst \<Rightarrow> [Settled 1, Settled 0])"

subsection \<open>Callbacks used in the examples\<close>

text \<open>The check of the documentation's example of \<^verbatim>\<open>traverse\<close>, which also logs the item
  it is called with: the world is the list of the items seen so far.\<close>

definition checkPositive :: "int \<Rightarrow> (int list, (string, int) validation) effect" where
  "checkPositive x seen = (if x > 0 then valid x else invalid ''not positive'', seen @ [x])"

text \<open>A call that returns \<open>b\<close> and counts itself: the world is the number of calls so far.\<close>

definition counted :: "'b \<Rightarrow> (nat, 'x, 'b) call" where
  "counted b n = (Inr b, Suc n)"

text \<open>Two callables with a side effect of their own: each invocation counts itself and
  returns a promise resolved with \<open>7\<close>, and with \<open>right(7)\<close>.\<close>

definition countingThunk :: "(nat, string, int) taskValue" where
  "countingThunk = counted (promise_resolve 7)"

definition countingThunkE :: "(nat, string, string, int) taskEitherValue" where
  "countingThunkE = counted (promise_resolve (right 7))"

text \<open>Values of the examples, at fixed types: the world is a counter, exceptions and
  errors are strings.\<close>

definition answer :: "(nat, string, int) task" where
  "answer = task (Plain 42)"

definition failing :: "(nat, string, string, int) taskEither" where
  "failing = taskLeft ''boom''"

definition succeeding :: "(nat, string, string, int) taskEither" where
  "succeeding = taskEither 10"

text \<open>A mapper that counts its call and returns a \<open>TaskEither\<close> whose callable counts its
  invocation.\<close>

definition countingMapper :: "int \<Rightarrow> (nat, string, (nat, string, string, int) taskEither) call" where
  "countingMapper v = counted (createTaskEither countingThunkE)"

text \<open>Three side effects: one returns a string, one returns a promise whose work would
  add 100 to the counter, one throws; the first and the last count their call.\<close>

definition logsAndReturns :: "int \<Rightarrow> (nat, string, string) call" where
  "logsAndReturns v = counted ''ignored''"

definition returnsPromise :: "int \<Rightarrow> (nat, string, (nat, string, unit) promise) call" where
  "returnsPromise v = returns (\<lambda>n. (Resolved (), n + 100))"

definition logsAndThrows :: "int \<Rightarrow> (nat, string, unit) call" where
  "logsAndThrows v n = (Inl ''thrown'', Suc n)"

text \<open>A value that is a promise, rejected with \<open>''inner''\<close>, and a Kleisli function that
  counts its call and returns a task resolving to \<open>0\<close>, whatever it is called with.\<close>

definition rejectedInner :: "(nat, string, int) jsValue" where
  "rejectedInner = Thenable (\<lambda>n. (Rejected ''inner'', n))"

definition ignoresArgument ::
  "(nat, string, int) jsValue \<Rightarrow> (nat, string, (nat, string, int) task) call" where
  "ignoresArgument a = counted (task (Plain 0))"

text \<open>A receiver and an argument of \<open>ap\<close> that both fail.\<close>

definition failingFn :: "(nat, string, string, int \<Rightarrow> (nat, int) effect) taskEither" where
  "failingFn = taskLeft ''e1''"

definition failingArg :: "(nat, string, string, int) taskEither" where
  "failingArg = taskLeft ''e2''"

text \<open>Two lists for \<open>all\<close>: one with two failing elements, one whose elements all succeed.\<close>

definition twoFailures :: "(nat, string, string, int) taskEither list" where
  "twoFailures = [taskLeft ''first'', taskEither 2, taskLeft ''second'']"

definition allSucceed :: "(nat, string, string, int) taskEither list" where
  "allSucceed = [taskEither 1, taskEither 2, taskEither 3]"

section \<open>Properties\<close>

subsection \<open>Validation: case analysis\<close>

lemma validation_match_case:
  "validation_match this onInvalid onValid =
     (case this of Valid v \<Rightarrow> onValid v | Invalid errors \<Rightarrow> onInvalid errors)"
  by (cases this) (simp_all add: validation_match_def)

subsection \<open>Validation: accumulation in ap\<close>

text \<open>
  C1. \<open>Validation.ap\<close> accumulates errors in receiver-then-argument order:
  \<open>invalid(e1).ap(invalid(e2))\<close> is invalid with the error sequence exactly \<open>[e1, e2]\<close>,
  which differs from \<open>[e2, e1]\<close> whenever the two errors differ; and for every invalid
  receiver carrying \<open>es1\<close> and invalid argument carrying \<open>es2\<close> the result is invalid
  carrying \<open>es1\<close> followed by \<open>es2\<close>. No function is applied: an invalid receiver holds
  none, and the world comes back unchanged; so it is when the receiver is made by \<open>map\<close>
  from a function, as \<open>map2\<close> does with its mapper.
\<close>

theorem validation_ap_accumulates:
  "validation_ap (invalid e1 :: ('e, 'a \<Rightarrow> ('s, 'u) effect) validation) (invalid e2) s
      = (Invalid [e1, e2], s)
   \<and> (e1 \<noteq> e2 \<longrightarrow> fst (validation_ap (invalid e1) (invalid e2) s) \<noteq> Invalid [e2, e1])
   \<and> validation_ap (Invalid es1) (Invalid es2) s = (Invalid (es1 @ es2), s)
   \<and> map2 (Invalid es1) (Invalid es2) mapper s = (Invalid (es1 @ es2), s)"
  by (simp add: validation_ap_def validation_map_def map2_def validation_match_case invalid_def
      createValidation_def)

theorem validation_ap_accumulates_witness:
  "validation_ap (invalid ''e1'' :: (string, int \<Rightarrow> (nat, int) effect) validation)
        (invalid ''e2'') 0
      = (Invalid [''e1'', ''e2''], 0)
   \<and> ''e1'' \<noteq> ''e2''
   \<and> fst (validation_ap (invalid ''e1'' :: (string, int \<Rightarrow> (nat, int) effect) validation)
        (invalid ''e2'') 0)
      \<noteq> Invalid [''e2'', ''e1'']
   \<and> validation_ap (Invalid [''a'', ''b''] :: (string, int \<Rightarrow> (nat, int) effect) validation)
        (Invalid [''c'']) 0
      = (Invalid [''a'', ''b'', ''c''], 0)
   \<and> map2 (Invalid [''a'', ''b'']) (Invalid [''c'']) (\<lambda>(x::int) (y::int) n. (x + y, Suc n)) 0
      = (Invalid [''a'', ''b'', ''c''], 0)"
  using validation_ap_accumulates
    [of "''e1''" "''e2''" "0::nat" "[''a'', ''b'']" "[''c'']"
        "\<lambda>(x::int) (y::int) n. (x + y, Suc n)", where ?'a = int and ?'u = int]
  by simp

subsection \<open>Validation: traverse and sequence\<close>

lemma traverse_loop_produced:
  "traverse_loop as f errors vals s =
     ((errors @ concat (map errorsOf (fst (produced as f s))),
       vals @ concat (map valuesOf (fst (produced as f s)))),
      snd (produced as f s))"
proof (induction as arbitrary: errors vals s)
  case Nil
  show ?case by simp
next
  case (Cons a as)
  obtain r s1 where r: "f a s = (r, s1)" by (cases "f a s")
  show ?case
    by (cases r) (simp_all add: r Cons.IH validation_match_case split: prod.splits)
qed

text \<open>Whatever \<open>f\<close> returns: the loop visits every item in order, and the result is
  decided by the collected errors alone.\<close>

lemma traverse_produced:
  "traverse as f s =
     (if concat (map errorsOf (fst (produced as f s))) \<noteq> []
      then Invalid (concat (map errorsOf (fst (produced as f s))))
      else Valid (concat (map valuesOf (fst (produced as f s)))),
      snd (produced as f s))"
  by (simp add: traverse_def traverse_loop_produced createValidation_def)

lemma no_errors_iff_all_valid:
  "\<forall>r \<in> set rs. nonEmptyErrors r \<Longrightarrow>
     concat (map errorsOf rs) = [] \<longleftrightarrow> (\<forall>r \<in> set rs. isValid r)"
  by (induction rs) (auto simp: nonEmptyErrors_def split: validationV.splits)

lemma traverse_invalid_nonempty: "nonEmptyErrors (fst (traverse as f s))"
  by (simp add: traverse_produced nonEmptyErrors_def)

text \<open>
  The claim C5 as it is written has the construction of the value array short-circuited
  on a failure. The loop has no such exit: on the items \<open>-1, 2, -3\<close> the value \<open>2\<close> is
  pushed after the failure of \<open>-1\<close>, and the array \<open>values\<close> is not empty when the loop
  ends.
\<close>

theorem traverse_values_not_short_circuited:
  "fst (traverse_loop [-1, 2, -3] checkPositive [] [] [])
      = ([''not positive'', ''not positive''], [2])
   \<and> snd (fst (traverse_loop [-1, 2, -3] checkPositive [] [] [])) \<noteq> []"
  by (simp add: checkPositive_def valid_def invalid_def createValidation_def validation_match_case)

text \<open>
  C5, amended. \<open>traverse(items, f)\<close> applies \<open>f\<close> to every item in order, whatever the
  earlier items produced: the world after \<open>traverse\<close> is the world after \<open>f\<close> has been
  called on each item in turn (\<open>produced\<close>). Neither the discovery of errors nor the collection of
  values stops at a failure: with \<open>rs\<close> the \<open>Validation\<close>s so produced, the loop ends with
  the errors of every invalid item and the values of every valid item, both in item order.
  When each of \<open>rs\<close> satisfies the invariant of the data model, the result is valid with
  all the produced values in item order exactly when every item produced valid, and
  otherwise invalid with the concatenation, in item order, of the errors of every invalid
  item; valid items add nothing to the errors, and their values are dropped from the
  result. On the empty list the result is valid with the empty sequence, and
  \<open>sequence(list)\<close> is \<open>traverse(list, identity)\<close>.
\<close>

theorem traverse_collects_every_error:
  "(produced as f s = (rs, s') \<longrightarrow>
      traverse_loop as f [] [] s = ((concat (map errorsOf rs), concat (map valuesOf rs)), s'))
   \<and> (produced as f s = (rs, s') \<and> (\<forall>r \<in> set rs. nonEmptyErrors r) \<longrightarrow>
      traverse as f s =
        (if \<forall>r \<in> set rs. isValid r then Valid (concat (map valuesOf rs))
         else Invalid (concat (map errorsOf rs)), s'))
   \<and> traverse [] f s = (Valid [], s)
   \<and> sequence vs s = traverse vs (\<lambda>v s. (v, s)) s"
proof -
  have "traverse as f s =
       (if \<forall>r \<in> set rs. isValid r then Valid (concat (map valuesOf rs))
        else Invalid (concat (map errorsOf rs)), s')"
    if a: "produced as f s = (rs, s')" "\<forall>r \<in> set rs. nonEmptyErrors r"
  proof -
    have "concat (map errorsOf rs) = [] \<longleftrightarrow> (\<forall>r \<in> set rs. isValid r)"
      using a(2) by (rule no_errors_iff_all_valid)
    with a(1) show ?thesis by (simp add: traverse_produced)
  qed
  moreover
  have "traverse_loop as f [] [] s = ((concat (map errorsOf rs), concat (map valuesOf rs)), s')"
    if "produced as f s = (rs, s')"
    using that by (simp add: traverse_loop_produced)
  moreover have "traverse [] f s = (Valid [], s)"
    by (simp add: traverse_produced)
  moreover have "sequence vs s = traverse vs (\<lambda>v s. (v, s)) s"
    by (simp add: sequence_def)
  ultimately show ?thesis by blast
qed

theorem traverse_collects_every_error_witness:
  "produced [-1, 2, -3] checkPositive []
      = ([Invalid [''not positive''], Valid 2, Invalid [''not positive'']], [-1, 2, -3])
   \<and> traverse [-1, 2, -3] checkPositive []
      = (Invalid [''not positive'', ''not positive''], [-1, 2, -3])
   \<and> traverse [] checkPositive [] = (Valid [], [])
   \<and> sequence [Valid (1::int), Invalid [''e1''], Invalid [''e2'']] (0::nat)
      = (Invalid [''e1'', ''e2''], 0)"
proof -
  let ?rs = "[Invalid [''not positive''], Valid (2::int), Invalid [''not positive'']]"
  let ?vs = "[Valid (1::int), Invalid [''e1''], Invalid [''e2'']]"
  have p: "produced [-1, 2, -3] checkPositive [] = (?rs, [-1, 2, -3])"
    by (simp add: checkPositive_def valid_def invalid_def createValidation_def)
  have q: "produced ?vs (\<lambda>v s. (v, s)) (0::nat) = (?vs, 0)"
    by simp
  have ne1: "\<forall>r \<in> set ?rs. nonEmptyErrors r"
    by (simp add: nonEmptyErrors_def)
  have ne2: "\<forall>r \<in> set ?vs. nonEmptyErrors r"
    by (simp add: nonEmptyErrors_def)
  note t1 = traverse_collects_every_error
    [of "[-1, 2, -3]" checkPositive "[]" ?rs "[-1, 2, -3]" "[] :: (string, int) validation list"]
  note t2 = traverse_collects_every_error
    [of ?vs "\<lambda>v s. (v, s)" "0::nat" ?vs 0 ?vs]
  have a: "traverse [-1, 2, -3] checkPositive []
      = (Invalid [''not positive'', ''not positive''], [-1, 2, -3])"
    using t1 [THEN conjunct2, THEN conjunct1, THEN mp, OF conjI [OF p ne1]] by simp
  have b: "traverse [] checkPositive [] = (Valid [], [])"
    using t1 [THEN conjunct2, THEN conjunct2, THEN conjunct1] .
  have c: "traverse ?vs (\<lambda>v s. (v, s)) (0::nat) = (Invalid [''e1'', ''e2''], 0)"
    using t2 [THEN conjunct2, THEN conjunct1, THEN mp, OF conjI [OF q ne2]] by simp
  have d: "sequence ?vs (0::nat) = traverse ?vs (\<lambda>v s. (v, s)) 0"
    using t2 [THEN conjunct2, THEN conjunct2, THEN conjunct2] .
  show ?thesis using p a b c d by simp
qed

subsection \<open>Validation: the invariant\<close>

text \<open>
  C6. Every \<open>Validation\<close> obtained from the public constructors \<open>valid\<close>, \<open>invalid\<close> and
  \<open>fromEither\<close> satisfies the invariant (an invalid one carries at least one error), and
  so does every result of \<open>map\<close>, \<open>ap\<close>, \<open>map2\<close> and \<open>map3\<close> applied to \<open>Validation\<close>s that
  satisfy it, and every result of \<open>traverse\<close> and \<open>sequence\<close>.
\<close>

theorem validation_errors_never_empty:
  "nonEmptyErrors (valid v)
   \<and> nonEmptyErrors (invalid e)
   \<and> nonEmptyErrors (fromEither ei)
   \<and> (nonEmptyErrors this \<longrightarrow> nonEmptyErrors (fst (validation_map this mapper s)))
   \<and> (nonEmptyErrors thisF \<and> nonEmptyErrors arg
        \<longrightarrow> nonEmptyErrors (fst (validation_ap thisF arg s)))
   \<and> (nonEmptyErrors valA \<and> nonEmptyErrors valB
        \<longrightarrow> nonEmptyErrors (fst (map2 valA valB mapper2 s)))
   \<and> (nonEmptyErrors valA \<and> nonEmptyErrors valB \<and> nonEmptyErrors valC
        \<longrightarrow> nonEmptyErrors (fst (map3 valA valB valC mapper3 s)))
   \<and> nonEmptyErrors (fst (traverse as f s))
   \<and> nonEmptyErrors (fst (sequence vs s))"
proof -
  have c: "nonEmptyErrors (valid v)" "nonEmptyErrors (invalid e)" "nonEmptyErrors (fromEither ei)"
    by (simp_all add: nonEmptyErrors_def valid_def invalid_def fromEither_def either_match_def
          createValidation_def split: either.splits)
  have m: "nonEmptyErrors this \<longrightarrow> nonEmptyErrors (fst (validation_map this mapper s))"
    by (simp add: nonEmptyErrors_def validation_map_def validation_match_case
          createValidation_def split: validationV.splits prod.splits)
  have a: "nonEmptyErrors thisF \<and> nonEmptyErrors arg
        \<longrightarrow> nonEmptyErrors (fst (validation_ap thisF arg s))"
    by (simp add: nonEmptyErrors_def validation_ap_def validation_match_case
          createValidation_def split: validationV.splits prod.splits)
  have m2: "nonEmptyErrors valA \<and> nonEmptyErrors valB
        \<longrightarrow> nonEmptyErrors (fst (map2 valA valB mapper2 s))"
    by (simp add: nonEmptyErrors_def map2_def validation_map_def validation_ap_def
          validation_match_case createValidation_def split: validationV.splits prod.splits)
  have m3: "nonEmptyErrors valA \<and> nonEmptyErrors valB \<and> nonEmptyErrors valC
        \<longrightarrow> nonEmptyErrors (fst (map3 valA valB valC mapper3 s))"
    by (simp add: nonEmptyErrors_def map3_def validation_map_def validation_ap_def
          validation_match_case createValidation_def split: validationV.splits prod.splits)
  have t: "nonEmptyErrors (fst (traverse as f s))" "nonEmptyErrors (fst (sequence vs s))"
    by (simp_all add: sequence_def traverse_invalid_nonempty)
  from c m a m2 m3 t show ?thesis by blast
qed

theorem validation_errors_never_empty_witness:
  "nonEmptyErrors (Invalid [''a''] :: (string, int) validation)
   \<and> nonEmptyErrors (Valid 3 :: (string, int) validation)
   \<and> nonEmptyErrors (fromEither (Left ''x'' :: (string, int) either))
   \<and> nonEmptyErrors (fst (validation_map (Invalid [''a''])
         (\<lambda>(x::int) (seen::int list). (x + 1, seen)) []))
   \<and> nonEmptyErrors (fst (validation_ap
         (Invalid [''a''] :: (string, int \<Rightarrow> (int list, int) effect) validation)
         (Valid 3) []))
   \<and> nonEmptyErrors (fst (map2 (Invalid [''a'']) (Valid 3)
         (\<lambda>(x::int) (y::int) (seen::int list). (x + y, seen)) []))
   \<and> nonEmptyErrors (fst (map3 (Invalid [''a'']) (Valid 3) (Invalid [''a''])
         (\<lambda>(x::int) (y::int) (z::int) (seen::int list). (x + y + z, seen)) []))
   \<and> nonEmptyErrors (fst (traverse [-1, 2, -3] checkPositive []))
   \<and> nonEmptyErrors (fst (sequence [Invalid [''a''], Valid (3::int)] ([] :: int list)))"
proof -
  have h: "nonEmptyErrors (Invalid [''a''] :: (string, int) validation)"
    "nonEmptyErrors (Invalid [''a''] :: (string, int \<Rightarrow> (int list, int) effect) validation)"
    "nonEmptyErrors (Valid 3 :: (string, int) validation)"
    by (simp_all add: nonEmptyErrors_def)
  show ?thesis
    using h validation_errors_never_empty
      [of "3::int" "''a''" "Left ''x'' :: (string, int) either"
          "Invalid [''a''] :: (string, int) validation"
          "\<lambda>(x::int) (seen::int list). (x + 1, seen)" "[] :: int list"
          "Invalid [''a''] :: (string, int \<Rightarrow> (int list, int) effect) validation"
          "Valid 3 :: (string, int) validation"
          "Invalid [''a''] :: (string, int) validation"
          "Valid 3 :: (string, int) validation"
          "\<lambda>(x::int) (y::int) (seen::int list). (x + y, seen)"
          "Invalid [''a''] :: (string, int) validation"
          "\<lambda>(x::int) (y::int) (z::int) (seen::int list). (x + y + z, seen)"
          "[-1, 2, -3]" checkPositive
          "[Invalid [''a''], Valid (3::int)]"]
    by blast
qed

subsection \<open>Task and TaskEither: running is invoking the callable\<close>

lemma spy_counts_invocation: "fst (snd (spy thunk (c, s))) = Suc c"
  by (simp add: spy_def split: prod.splits sum.splits)

lemma spy_counts_awaited_run: "fst (snd (await (spy thunk) (c, s))) = Suc c"
  by (auto simp add: spy_def await_def split: prod.splits sum.splits)

lemma task_run_times_spy: "fst (task_run_times n (createTask (spy thunk)) (c, s)) = c + n"
proof (induction n arbitrary: c s)
  case 0
  show ?case by simp
next
  case (Suc n)
  obtain c' s' where st: "snd (await (spy thunk) (c, s)) = (c', s')"
    by (cases "snd (await (spy thunk) (c, s))")
  have "c' = Suc c" using spy_counts_awaited_run [of thunk c s] st by simp
  then show ?case using Suc.IH [of c' s'] st by (simp add: createTask_def)
qed

lemma te_run_times_spy: "fst (te_run_times n (createTaskEither (spy thunk)) (c, s)) = c + n"
proof (induction n arbitrary: c s)
  case 0
  show ?case by simp
next
  case (Suc n)
  obtain c' s' where st: "snd (await (spy thunk) (c, s)) = (c', s')"
    by (cases "snd (await (spy thunk) (c, s))")
  have "c' = Suc c" using spy_counts_awaited_run [of thunk c s] st by simp
  then show ?case using Suc.IH [of c' s'] st by (simp add: createTaskEither_def)
qed

text \<open>
  C7. Running a \<open>Task\<close> or \<open>TaskEither\<close> built from a callable (by \<open>createTask\<close>,
  \<open>fromPromise\<close> or \<open>createTaskEither\<close>) is invoking that callable: \<open>run\<close> of the built
  value is the callable itself, a function of the world at the time of the call, so
  nothing of an earlier run is kept. With the callable under a counting spy, one call of
  \<open>run()\<close> raises the count by one already when it returns, and \<open>n\<close> awaited runs of the
  same instance raise it by exactly \<open>n\<close>: by two for two runs, and not at all when
  \<open>run()\<close> is never called.
\<close>

theorem run_invokes_callable_each_time:
  "task_run (createTask thunk) = thunk
   \<and> task_run (fromPromise thunk) = thunk
   \<and> te_run (createTaskEither thunkE) = thunkE
   \<and> fst (snd (task_run (createTask (spy thunk)) (c, s))) = Suc c
   \<and> fst (snd (te_run (createTaskEither (spy thunkE)) (c, s))) = Suc c
   \<and> fst (task_run_times n (createTask (spy thunk)) (c, s)) = c + n
   \<and> fst (task_run_times n (fromPromise (spy thunk)) (c, s)) = c + n
   \<and> fst (te_run_times n (createTaskEither (spy thunkE)) (c, s)) = c + n"
  using task_run_times_spy [of n thunk c s] te_run_times_spy [of n thunkE c s]
  by (simp add: fromPromise_def createTask_def createTaskEither_def spy_counts_invocation)

theorem run_invokes_callable_each_time_witness:
  "fst (task_run_times 2 (createTask (spy countingThunk)) (0, 0)) = 2
   \<and> snd (task_run_times 2 (createTask (spy countingThunk)) (0, 0)) = 2
   \<and> fst (task_run_times 0 (createTask (spy countingThunk)) (0, 0)) = 0
   \<and> fst (task_run_times 2 (fromPromise (spy countingThunk)) (0, 0)) = 2
   \<and> fst (te_run_times 2 (createTaskEither (spy countingThunkE)) (0, 0)) = 2"
proof -
  have two: "(2::nat) = Suc (Suc 0)" by simp
  have own: "snd (task_run_times 2 (createTask (spy countingThunk)) (0, 0)) = 2"
    unfolding two
    by (simp add: createTask_def spy_def countingThunk_def counted_def await_def
        promise_resolve_def)
  have twice: "fst (task_run_times 2 (createTask (spy countingThunk)) (0, 0)) = 0 + 2
      \<and> fst (task_run_times 2 (fromPromise (spy countingThunk)) (0, 0)) = 0 + 2
      \<and> fst (te_run_times 2 (createTaskEither (spy countingThunkE)) (0, 0)) = 0 + 2"
    using run_invokes_callable_each_time [of countingThunk countingThunkE 0 0 2]
    by blast
  show ?thesis using own twice by simp
qed

subsection \<open>flatMap: sequencing and the monad laws\<close>

text \<open>What awaiting a run of \<open>flatMap\<close> observes, in terms of the receiver's run.\<close>

lemma await_task_flatMap:
  "await (task_run (task_flatMap t f)) s =
     (case await (task_run t) s of
        (Rejected x, s1) \<Rightarrow> (Rejected x, s1)
      | (Resolved v, s1) \<Rightarrow> await (and_then (f v) task_run) s1)"
  by (cases t)
     (simp add: createTask_def await_def and_then_def returns_def then_promise_def
        split: prod.splits sum.splits settled.splits)

lemma await_te_flatMap:
  "await (te_run (te_flatMap te f)) s =
     (case await (te_run te) s of
        (Rejected x, s1) \<Rightarrow> (Rejected x, s1)
      | (Resolved (Left e), s1) \<Rightarrow> (Resolved (Left e), s1)
      | (Resolved (Right v), s1) \<Rightarrow> await (and_then (f v) te_run) s1)"
  by (cases te)
     (simp add: createTaskEither_def await_def and_then_def returns_def then_promise_def
        either_match_def promise_resolve_def left_def
        split: prod.splits sum.splits settled.splits either.splits)

lemma await_task: "await (task_run (task (Plain a))) s = (Resolved a, s)"
  by (simp add: task_def createTask_def await_def returns_def promise_resolve_def)

lemma await_task_thenable: "await (task_run (task (Thenable p))) s = p s"
  by (simp add: task_def createTask_def await_def returns_def)

lemma await_taskEither: "await (te_run (taskEither a)) s = (Resolved (Right a), s)"
  by (simp add: taskEither_def createTaskEither_def await_def returns_def promise_resolve_def
      right_def)

lemma await_taskLeft: "await (te_run (taskLeft e)) s = (Resolved (Left e), s)"
  by (simp add: taskLeft_def createTaskEither_def await_def returns_def promise_resolve_def
      left_def)

lemma await_and_then:
  "await (and_then c k) s =
     (case c s of (Inl x, s1) \<Rightarrow> (Rejected x, s1) | (Inr a, s1) \<Rightarrow> await (k a) s1)"
  by (simp add: await_def and_then_def split: prod.splits sum.splits)

lemma await_returns: "await (and_then (returns t) k) s = await (k t) s"
  by (simp add: await_def and_then_def returns_def)

lemma await_counted: "await (and_then (counted t) k) n = await (k t) (Suc n)"
  by (simp add: await_def and_then_def counted_def)

lemma either_flatMap_laws:
  "either_flatMap (right a) f s = f a s"
  "either_flatMap m (\<lambda>v s. (right v, s)) s = (m, s)"
  "(let (r, s1) = either_flatMap m f s in either_flatMap r g s1)
     = either_flatMap m (\<lambda>x s. let (r, s1) = f x s in either_flatMap r g s1) s"
  by (auto simp: either_flatMap_def either_match_def right_def split: either.splits prod.splits)

lemma task_flatMap_left_identity:
  "await (task_run (task_flatMap (task (Plain a)) f)) s = await (and_then (f a) task_run) s"
  by (simp add: await_task_flatMap await_task)

lemma task_flatMap_of_thenable:
  "await (task_run (task_flatMap (task (Thenable p)) f)) s =
     (case p s of
        (Rejected x, s1) \<Rightarrow> (Rejected x, s1)
      | (Resolved v, s1) \<Rightarrow> await (and_then (f v) task_run) s1)"
  by (simp add: await_task_flatMap await_task_thenable)

lemma task_flatMap_right_identity:
  "await (task_run (task_flatMap m (\<lambda>v. returns (task (Plain v))))) s = await (task_run m) s"
  by (simp add: await_task_flatMap await_returns await_task
      split: prod.splits settled.splits)

lemma task_flatMap_assoc:
  "await (task_run (task_flatMap (task_flatMap m f) g)) s
     = await (task_run (task_flatMap m
         (\<lambda>x. and_then (f x) (\<lambda>t. returns (task_flatMap t g))))) s"
  by (simp add: await_task_flatMap await_and_then and_then_def returns_def
      split: prod.splits settled.splits sum.splits)

lemma te_flatMap_left_identity:
  "await (te_run (te_flatMap (taskEither a) f)) s = await (and_then (f a) te_run) s"
  by (simp add: await_te_flatMap await_taskEither)

lemma te_flatMap_right_identity:
  "await (te_run (te_flatMap m (\<lambda>v. returns (taskEither v)))) s = await (te_run m) s"
  by (simp add: await_te_flatMap await_returns await_taskEither
      split: prod.splits settled.splits either.splits)

lemma te_flatMap_assoc:
  "await (te_run (te_flatMap (te_flatMap m f) g)) s
     = await (te_run (te_flatMap m
         (\<lambda>x. and_then (f x) (\<lambda>te. returns (te_flatMap te g))))) s"
  by (simp add: await_te_flatMap await_and_then and_then_def returns_def
      split: prod.splits settled.splits sum.splits either.splits)

text \<open>
  The claim C8 as it is written has the left identity of \<open>Task\<close> for every value. For a
  value that is a promise it fails: \<open>task(a)\<close> adopts the promise, so with \<open>a\<close> a promise
  rejected with \<open>''inner''\<close>, running \<open>task(a).flatMap(f)\<close> is rejected with \<open>''inner''\<close>
  and \<open>f\<close> is not called, while \<open>f(a)\<close> is called with the promise and its task resolves
  to \<open>0\<close>. The mapper of \<open>flatMap\<close> receives what the promise resolved with, a plain
  value.
\<close>

theorem task_left_identity_fails_for_thenable:
  "await (task_run (task_flatMap (task rejectedInner) (\<lambda>v. ignoresArgument (Plain v)))) 0
      = (Rejected ''inner'', 0)
   \<and> await (and_then (ignoresArgument rejectedInner) task_run) 0 = (Resolved 0, 1)
   \<and> await (task_run (task_flatMap (task rejectedInner) (\<lambda>v. ignoresArgument (Plain v)))) 0
      \<noteq> await (and_then (ignoresArgument rejectedInner) task_run) 0"
proof -
  have l: "await (task_run (task_flatMap (task rejectedInner)
        (\<lambda>v. ignoresArgument (Plain v)))) 0 = (Rejected ''inner'', 0)"
    by (simp add: rejectedInner_def task_flatMap_of_thenable)
  have r: "await (and_then (ignoresArgument rejectedInner) task_run) 0 = (Resolved 0, 1)"
    by (simp add: ignoresArgument_def await_counted await_task)
  show ?thesis using l r by simp
qed

text \<open>
  C8, amended. The monad laws of \<open>flatMap\<close> on \<open>Either\<close>, \<open>Task\<close> and \<open>TaskEither\<close>, for
  every \<open>m\<close> and all Kleisli functions, which may have effects of their own, and for
  \<open>Task\<close> and \<open>TaskEither\<close> may throw. Equality is equality of what is observed: the
  \<open>Either\<close> obtained with the world after it, and for \<open>Task\<close> and \<open>TaskEither\<close> what
  awaiting the run observes. Left identity: lifting \<open>a\<close> with the success constructor and
  then \<open>flatMap(f)\<close> is \<open>f(a)\<close>, on \<open>Either\<close> and \<open>TaskEither\<close> for every value \<open>a\<close>, on
  \<open>Task\<close> for every value \<open>a\<close> that is not a thenable; for a thenable \<open>p\<close>,
  \<open>task(p).flatMap(f)\<close> is rejected as \<open>p\<close> is, or is \<open>f\<close> of what \<open>p\<close> resolves with.
  Right identity: \<open>m.flatMap\<close> of the success constructor is \<open>m\<close>. Associativity:
  \<open>m.flatMap(f).flatMap(g)\<close> is \<open>m.flatMap(x => f(x).flatMap(g))\<close>.
\<close>

theorem flatMap_monad_laws:
  "either_flatMap (right a) ef s = ef a s
   \<and> either_flatMap em (\<lambda>v s. (right v, s)) s = (em, s)
   \<and> (let (r, s1) = either_flatMap em ef s in either_flatMap r eg s1)
       = either_flatMap em (\<lambda>x s. let (r, s1) = ef x s in either_flatMap r eg s1) s
   \<and> await (task_run (task_flatMap (task (Plain a)) tf)) s = await (and_then (tf a) task_run) s
   \<and> await (task_run (task_flatMap (task (Thenable p)) tf)) s
       = (case p s of
            (Rejected x, s1) \<Rightarrow> (Rejected x, s1)
          | (Resolved v, s1) \<Rightarrow> await (and_then (tf v) task_run) s1)
   \<and> await (task_run (task_flatMap tm (\<lambda>v. returns (task (Plain v))))) s
       = await (task_run tm) s
   \<and> await (task_run (task_flatMap (task_flatMap tm tf) tg)) s
       = await (task_run (task_flatMap tm
           (\<lambda>x. and_then (tf x) (\<lambda>t. returns (task_flatMap t tg))))) s
   \<and> await (te_run (te_flatMap (taskEither a) kf)) s = await (and_then (kf a) te_run) s
   \<and> await (te_run (te_flatMap km (\<lambda>v. returns (taskEither v)))) s = await (te_run km) s
   \<and> await (te_run (te_flatMap (te_flatMap km kf) kg)) s
       = await (te_run (te_flatMap km
           (\<lambda>x. and_then (kf x) (\<lambda>te. returns (te_flatMap te kg))))) s"
  by (simp only: either_flatMap_laws task_flatMap_left_identity task_flatMap_of_thenable
      task_flatMap_right_identity task_flatMap_assoc te_flatMap_left_identity
      te_flatMap_right_identity te_flatMap_assoc simp_thms)

theorem flatMap_monad_laws_witness:
  "either_flatMap (right 21) (\<lambda>x s. (Right (x * 2) :: (string, int) either, Suc s)) 0
      = (Right 42, 1)
   \<and> await (task_run (task_flatMap (task (Plain 21))
        (\<lambda>x. counted (task (Plain (x * 2)) :: (nat, string, int) task)))) 0
      = (Resolved 42, 1)
   \<and> await (task_run (task_flatMap (task (Thenable (promise_resolve 21)))
        (\<lambda>x. counted (task (Plain (x * 2)) :: (nat, string, int) task)))) 0
      = (Resolved 42, 1)
   \<and> await (te_run (te_flatMap (taskEither 21)
        (\<lambda>x. counted (taskEither (x * 2) :: (nat, string, string, int) taskEither)))) 0
      = (Resolved (Right 42), 1)"
proof -
  note laws = flatMap_monad_laws
    [of "21::int" "\<lambda>x s. (Right (x * 2) :: (string, int) either, Suc s)" "0::nat"
        "Right 1 :: (string, int) either"
        "\<lambda>x s. (Right (x * 2) :: (string, int) either, Suc s)"
        "\<lambda>x. counted (task (Plain (x * 2)) :: (nat, string, int) task)"
        "promise_resolve 21"
        "createTask countingThunk"
        "\<lambda>x. counted (task (Plain (x * 2)) :: (nat, string, int) task)"
        "\<lambda>x. counted (taskEither (x * 2) :: (nat, string, string, int) taskEither)"
        "createTaskEither countingThunkE"
        "\<lambda>x. counted (taskEither (x * 2) :: (nat, string, string, int) taskEither)"]
  have e: "either_flatMap (right 21) (\<lambda>x s. (Right (x * 2) :: (string, int) either, Suc s)) 0
      = (Right 42, 1)"
    using laws [THEN conjunct1] by simp
  have t: "await (task_run (task_flatMap (task (Plain 21))
        (\<lambda>x. counted (task (Plain (x * 2)) :: (nat, string, int) task)))) 0
      = (Resolved 42, 1)"
    using laws [THEN conjunct2, THEN conjunct2, THEN conjunct2, THEN conjunct1]
    by (simp add: await_counted await_task)
  have p: "await (task_run (task_flatMap (task (Thenable (promise_resolve 21)))
        (\<lambda>x. counted (task (Plain (x * 2)) :: (nat, string, int) task)))) 0
      = (Resolved 42, 1)"
    using laws [THEN conjunct2, THEN conjunct2, THEN conjunct2, THEN conjunct2, THEN conjunct1]
    by (simp add: await_counted await_task promise_resolve_def)
  have k: "await (te_run (te_flatMap (taskEither 21)
        (\<lambda>x. counted (taskEither (x * 2) :: (nat, string, string, int) taskEither)))) 0
      = (Resolved (Right 42), 1)"
    using laws [THEN conjunct2, THEN conjunct2, THEN conjunct2, THEN conjunct2, THEN conjunct2,
        THEN conjunct2, THEN conjunct2, THEN conjunct1]
    by (simp add: await_counted await_taskEither)
  show ?thesis using e t p k by simp
qed

subsection \<open>TaskEither: flatMap short-circuits on an error\<close>

text \<open>
  C3. If running \<open>te\<close> resolves to \<open>left(e)\<close>, running \<open>te.flatMap(f)\<close> resolves to
  \<open>left(e)\<close> and leaves the world as the run of \<open>te\<close> left it: neither \<open>f\<close> nor the
  callable of a \<open>TaskEither\<close> that \<open>f\<close> would return has been invoked. If running \<open>te\<close>
  resolves to \<open>right(v)\<close>, running \<open>te.flatMap(f)\<close> goes on from there with the outcome of
  running \<open>f(v)\<close>.
\<close>

theorem te_flatMap_short_circuits:
  "(await (te_run te) s = (Resolved (Left e), s')
      \<longrightarrow> await (te_run (te_flatMap te f)) s = (Resolved (Left e), s'))
   \<and> (await (te_run te) s = (Resolved (Right v), s')
      \<longrightarrow> await (te_run (te_flatMap te f)) s = await (and_then (f v) te_run) s')"
  by (simp add: await_te_flatMap)

theorem te_flatMap_short_circuits_witness:
  "await (te_run failing) 0 = (Resolved (Left ''boom''), 0)
   \<and> await (te_run (te_flatMap failing countingMapper)) 0 = (Resolved (Left ''boom''), 0)
   \<and> await (te_run succeeding) 0 = (Resolved (Right 10), 0)
   \<and> await (te_run (te_flatMap succeeding countingMapper)) 0 = (Resolved (Right 7), 2)"
proof -
  have l: "await (te_run failing) 0 = (Resolved (Left ''boom''), 0)"
    by (simp add: failing_def await_taskLeft)
  have r: "await (te_run succeeding) 0 = (Resolved (Right 10), 0)"
    by (simp add: succeeding_def await_taskEither)
  have f: "await (and_then (countingMapper 10) te_run) 0 = (Resolved (Right 7), 2)"
    by (simp add: countingMapper_def await_def and_then_def counted_def createTaskEither_def
        countingThunkE_def promise_resolve_def right_def numeral_2_eq_2)
  have sl: "await (te_run (te_flatMap failing countingMapper)) 0 = (Resolved (Left ''boom''), 0)"
    using te_flatMap_short_circuits [of failing 0 "''boom''" 0 countingMapper, THEN conjunct1] l
    by blast
  have sr: "await (te_run (te_flatMap succeeding countingMapper)) 0 = (Resolved (Right 7), 2)"
    using te_flatMap_short_circuits [of succeeding 0 _ 0 countingMapper 10, THEN conjunct2] r f
    by simp
  show ?thesis using l r sl sr by simp
qed

subsection \<open>Task: tap\<close>

text \<open>
  C10. With \<open>t\<close> resolving to \<open>v\<close>: if the side effect returns, \<open>t.tap(s).run()\<close> resolves
  with \<open>v\<close> unchanged and what the side effect returned is dropped, the world being the
  one the call of the side effect left, so that a promise it returned has not been
  awaited; if the side effect throws, \<open>t.tap(s).run()\<close> is rejected with the exception
  thrown instead of resolving with \<open>v\<close>.
\<close>

theorem task_tap_side_effect:
  "(await (task_run t) s = (Resolved v, s1) \<and> sideEffect v s1 = (Inr r, s2)
      \<longrightarrow> await (task_run (task_tap t sideEffect)) s = (Resolved v, s2))
   \<and> (await (task_run t) s = (Resolved v, s1) \<and> sideEffect v s1 = (Inl x, s2)
      \<longrightarrow> await (task_run (task_tap t sideEffect)) s = (Rejected x, s2))"
  by (cases t)
     (auto simp: await_def createTask_def and_then_def returns_def then_value_def
        split: prod.splits sum.splits settled.splits)


theorem task_tap_side_effect_witness:
  "await (task_run answer) 0 = (Resolved 42, 0)
   \<and> await (task_run (task_tap answer logsAndReturns)) 0 = (Resolved 42, 1)
   \<and> await (task_run (task_tap answer returnsPromise)) 0 = (Resolved 42, 0)
   \<and> await (task_run (task_tap answer logsAndThrows)) 0 = (Rejected ''thrown'', 1)"
proof -
  have t: "await (task_run answer) 0 = (Resolved 42, 0)"
    by (simp add: answer_def await_task)
  have e1: "logsAndReturns 42 0 = (Inr ''ignored'', 1)"
    by (simp add: logsAndReturns_def counted_def)
  have e2: "returnsPromise 42 0 = (Inr (\<lambda>n. (Resolved (), n + 100)), 0)"
    by (simp add: returnsPromise_def returns_def)
  have e3: "logsAndThrows 42 0 = (Inl ''thrown'', 1)"
    by (simp add: logsAndThrows_def)
  have a: "await (task_run (task_tap answer logsAndReturns)) 0 = (Resolved 42, 1)"
    using task_tap_side_effect [of answer 0 42 0 logsAndReturns _ 1, THEN conjunct1] t e1
    by blast
  have b: "await (task_run (task_tap answer returnsPromise)) 0 = (Resolved 42, 0)"
    using task_tap_side_effect [of answer 0 42 0 returnsPromise _ 0, THEN conjunct1] t e2
    by blast
  have c: "await (task_run (task_tap answer logsAndThrows)) 0 = (Rejected ''thrown'', 1)"
    using task_tap_side_effect [of answer 0 42 0 logsAndThrows _ 1 "''thrown''", THEN conjunct2]
      t e3
    by blast
  show ?thesis using t a b c by simp
qed

subsection \<open>Either and TaskEither: ap keeps the first error\<close>

lemma promise_all2_settle_pair:
  "settle_pair ord p q s = ((Resolved a, Resolved b), s') \<Longrightarrow>
     promise_all2 ord p q s = (Resolved (a, b), s')"
  by (cases ord) (auto simp: settle_pair_def promise_all2_def split: prod.splits)

text \<open>
  C4. On \<open>Either\<close>, \<open>left(e1).ap(left(e2))\<close> is \<open>left(e1)\<close>. On \<open>TaskEither\<close>, when both
  calls of \<open>run()\<close> have returned their promises and the receiver resolves to \<open>left(e1)\<close>
  and the argument to \<open>left(e2)\<close>, whichever of the two settles first, running
  \<open>this.ap(arg)\<close> resolves to \<open>left(e1)\<close>. The result is the receiver's error alone:
  \<open>e2\<close> is not in it and the two errors are not accumulated.
\<close>

theorem ap_keeps_first_error:
  "either_ap (left e1) (left e2) s = (Left e1, s)
   \<and> (te_run this s = (Inr p, s1) \<and> te_run arg s1 = (Inr q, s2)
        \<and> settle_pair ord p q s2 = ((Resolved (left e1), Resolved (left e2)), s3)
      \<longrightarrow> await (te_run (te_ap ord this arg)) s = (Resolved (Left e1), s3))"
  by (auto simp: either_ap_def either_match_def left_def te_ap_def createTaskEither_def
        await_def and_then_def returns_def then_value_def
        dest!: promise_all2_settle_pair)

theorem ap_keeps_first_error_witness:
  "either_ap (left ''e1'' :: (string, int \<Rightarrow> (nat, int) effect) either) (left ''e2'') 0
      = (Left ''e1'', 0)
   \<and> await (te_run (te_ap FirstSettlesFirst failingFn failingArg)) 0
      = (Resolved (Left ''e1''), 0)
   \<and> await (te_run (te_ap SecondSettlesFirst failingFn failingArg)) 0
      = (Resolved (Left ''e1''), 0)"
proof -
  have rf: "te_run failingFn 0 = (Inr (promise_resolve (left ''e1'')), 0)"
    by (simp add: failingFn_def taskLeft_def createTaskEither_def returns_def)
  have ra: "te_run failingArg 0 = (Inr (promise_resolve (left ''e2'')), 0)"
    by (simp add: failingArg_def taskLeft_def createTaskEither_def returns_def)
  have sp: "settle_pair ord (promise_resolve (left ''e1'')) (promise_resolve (left ''e2'')) (0::nat)
      = ((Resolved (left ''e1''), Resolved (left ''e2'')), 0)" for ord
    by (cases ord) (simp_all add: settle_pair_def promise_resolve_def)
  have e: "either_ap (left ''e1'' :: (string, int \<Rightarrow> (nat, int) effect) either) (left ''e2'') 0
      = (Left ''e1'', 0)"
    using ap_keeps_first_error
      [of "''e1''" "''e2''" "0::nat" failingFn _ 0 failingArg _ 0 FirstSettlesFirst 0,
        THEN conjunct1]
    by simp
  have a: "await (te_run (te_ap FirstSettlesFirst failingFn failingArg)) 0
      = (Resolved (Left ''e1''), 0)"
    using ap_keeps_first_error
      [of "''e1''" "''e2''" "0::nat" failingFn _ 0 failingArg _ 0 FirstSettlesFirst 0,
        THEN conjunct2] rf ra sp [of FirstSettlesFirst]
    by blast
  have b: "await (te_run (te_ap SecondSettlesFirst failingFn failingArg)) 0
      = (Resolved (Left ''e1''), 0)"
    using ap_keeps_first_error
      [of "''e1''" "''e2''" "0::nat" failingFn _ 0 failingArg _ 0 SecondSettlesFirst 0,
        THEN conjunct2] rf ra sp [of SecondSettlesFirst]
    by blast
  show ?thesis using e a b by simp
qed

subsection \<open>TaskEither: all\<close>

text \<open>\<^verbatim>\<open>Promise.all\<close> resolves with the values by index, whatever the order of settling.\<close>

lemma insort_key_map:
  "insort_key k (g x) (map g ys) = map g (insort_key (\<lambda>a. k (g a)) x ys)"
  by (induction ys) auto

lemma sort_key_map: "sort_key k (map g xs) = map g (sort_key (\<lambda>a. k (g a)) xs)"
  by (induction xs) (auto simp: insort_key_map)

lemma schedule_sort: "schedule ord n \<Longrightarrow> sort ord = [0..<n]"
  unfolding schedule_def by (metis sorted_upt properties_for_sort)

lemma schedule_set: "schedule ord n \<Longrightarrow> set ord \<subseteq> {0..<n}"
  unfolding schedule_def by (metis mset_eq_setD set_upt subset_refl)

lemma stored_by_index:
  assumes "schedule ord (length vs)"
  shows "map snd (sort_key fst (map (\<lambda>i. (i, vs ! i)) ord)) = vs"
proof -
  have "sort_key fst (map (\<lambda>i. (i, vs ! i)) ord) = map (\<lambda>i. (i, vs ! i)) (sort_key (\<lambda>i. i) ord)"
    by (simp add: sort_key_map)
  also have "sort_key (\<lambda>i. i) ord = [0..<length vs]"
    using schedule_sort [OF assms] by simp
  finally show ?thesis by (simp add: comp_def map_nth)
qed

lemma settle_all_settle_each:
  "settle_each ord ps s = (map (\<lambda>i. (i, Resolved (vs ! i))) ord, s') \<Longrightarrow>
     settle_all ord ps stored s = (Resolved (stored @ map (\<lambda>i. (i, vs ! i)) ord), s')"
proof (induction ord arbitrary: stored s)
  case Nil
  then show ?case by simp
next
  case (Cons i ord)
  obtain r s1 where r: "(ps ! i) s = (r, s1)" by (cases "(ps ! i) s")
  obtain rs s2 where rs: "settle_each ord ps s1 = (rs, s2)" by (cases "settle_each ord ps s1")
  from Cons.prems r rs
  have "r = Resolved (vs ! i)" "rs = map (\<lambda>i. (i, Resolved (vs ! i))) ord" "s2 = s'"
    by simp_all
  with Cons.IH [of s1 "stored @ [(i, vs ! i)]"] r rs show ?case by simp
qed

lemma promise_all_settle_each:
  assumes "schedule ord (length vs)"
    and "settle_each ord ps s = (map (\<lambda>i. (i, Resolved (vs ! i))) ord, s')"
  shows "promise_all ord ps s = (Resolved vs, s')"
  using settle_all_settle_each [OF assms(2), of "[]"] stored_by_index [OF assms(1)]
  by (simp add: promise_all_def)

text \<open>The loop of \<open>all\<close> over the resolved outcomes.\<close>

lemma all_loop_rights: "all_loop (map Right vs) out = Right (out @ vs)"
  by (induction vs arbitrary: out) (auto simp: toResult_def either_match_def right_def)

lemma all_loop_first_left: "all_loop (map Right vs @ Left e # rest) out = Left e"
  by (induction vs arbitrary: out) (auto simp: toResult_def either_match_def left_def)

lemma rights_prefix:
  "\<forall>j < length xs. \<exists>v. xs ! j = Right v \<Longrightarrow> \<exists>vs. xs = map Right vs"
proof (induction xs)
  case Nil
  then show ?case by simp
next
  case (Cons x xs)
  from Cons.prems have "\<exists>v. x = Right v" by auto
  moreover from Cons.prems have "\<forall>j < length xs. \<exists>v. xs ! j = Right v" by auto
  ultimately show ?case using Cons.IH by (metis list.simps(9))
qed

lemma all_loop_first_error:
  assumes "i < length es" "es ! i = Left e" "\<forall>j < i. \<exists>v. es ! j = Right v"
  shows "all_loop es [] = Left e"
proof -
  have "\<forall>j < length (take i es). \<exists>v. take i es ! j = Right v"
    using assms by simp
  then obtain vs where "take i es = map Right vs" using rights_prefix by blast
  moreover have "es = take i es @ es ! i # drop (Suc i) es"
    using assms(1) by (simp add: id_take_nth_drop)
  ultimately have "es = map Right vs @ Left e # drop (Suc i) es"
    using assms(2) by simp
  then show ?thesis using all_loop_first_left by metis
qed

lemma await_te_all:
  assumes "schedule ord (length es)"
    and "array_map te_run tes s = (Inr ps, s1)"
    and "settle_each ord ps s1 = (map (\<lambda>i. (i, Resolved (es ! i))) ord, s2)"
  shows "await (te_run (te_all ord tes)) s = (Resolved (all_loop es []), s2)"
proof -
  have "promise_all ord ps s1 = (Resolved es, s2)"
    using promise_all_settle_each [OF assms(1) assms(3)] .
  with assms(2) show ?thesis
    by (simp add: te_all_def createTaskEither_def await_def and_then_def returns_def
        then_value_def)
qed

text \<open>
  C2. Running \<open>all(list)\<close>, when every call of \<open>run()\<close> has returned its promise and the
  elements settle in any order \<open>ord\<close>, element \<open>i\<close> resolving to \<open>es ! i\<close>: if every
  outcome is a success, the result resolves to success with the success values in input
  order, and to success with the empty list for the empty list; if some outcome is an
  error, the result resolves to the error of the first element, in input order, whose
  outcome is an error. The outcome depends on \<open>es\<close> alone, not on the order \<open>ord\<close> in
  which the elements settle.
\<close>

theorem te_all_first_error_in_input_order:
  "(schedule ord (length tes) \<and> length es = length tes
      \<and> array_map te_run tes s = (Inr ps, s1)
      \<and> settle_each ord ps s1 = (map (\<lambda>i. (i, Resolved (es ! i))) ord, s2)
    \<longrightarrow>
      (es = map Right vs \<longrightarrow> await (te_run (te_all ord tes)) s = (Resolved (Right vs), s2))
      \<and> (i < length es \<and> es ! i = Left e \<and> (\<forall>j < i. \<exists>v. es ! j = Right v)
           \<longrightarrow> await (te_run (te_all ord tes)) s = (Resolved (Left e), s2)))
   \<and> await (te_run (te_all [] [])) s = (Resolved (Right []), s)"
proof -
  have "(es = map Right vs \<longrightarrow> await (te_run (te_all ord tes)) s = (Resolved (Right vs), s2))
      \<and> (i < length es \<and> es ! i = Left e \<and> (\<forall>j < i. \<exists>v. es ! j = Right v)
           \<longrightarrow> await (te_run (te_all ord tes)) s = (Resolved (Left e), s2))"
    if a: "schedule ord (length tes) \<and> length es = length tes
      \<and> array_map te_run tes s = (Inr ps, s1)
      \<and> settle_each ord ps s1 = (map (\<lambda>i. (i, Resolved (es ! i))) ord, s2)"
  proof -
    from a have run: "await (te_run (te_all ord tes)) s = (Resolved (all_loop es []), s2)"
      using await_te_all [of ord es tes s ps s1 s2] by simp
    show ?thesis
      using run all_loop_rights [of vs "[]"] all_loop_first_error [of i es e] by auto
  qed
  moreover
  have "schedule [] (length ([] :: ('e, 'f) either list))"
    by (simp add: schedule_def)
  then have "await (te_run (te_all [] [])) s = (Resolved (Right []), s)"
    using await_te_all [of "[]" "[]" "[]" s "[]" s s] by (simp add: returns_def right_def)
  ultimately show ?thesis by blast
qed

theorem te_all_first_error_in_input_order_witness:
  "schedule [2, 1, 0] (length twoFailures)
   \<and> await (te_run (te_all [2, 1, 0] twoFailures)) 0 = (Resolved (Left ''first''), 0)
   \<and> await (te_run (te_all [0, 1, 2] twoFailures)) 0 = (Resolved (Left ''first''), 0)
   \<and> await (te_run (te_all [2, 1, 0] allSucceed)) 0 = (Resolved (Right [1, 2, 3]), 0)"
proof -
  let ?ef = "[Left ''first'', Right 2, Left ''second''] :: (string, int) either list"
  let ?es = "[Right 1, Right 2, Right 3] :: (string, int) either list"
  have s1: "schedule [2, 1, 0] (length twoFailures)"
    and s2: "schedule [0, 1, 2] (length twoFailures)"
    and s3: "schedule [2, 1, 0] (length allSucceed)"
    by (simp_all add: schedule_def upt_rec twoFailures_def allSucceed_def)
  have l1: "length ?ef = length twoFailures" and l3: "length ?es = length allSucceed"
    by (simp_all add: twoFailures_def allSucceed_def)
  have rf: "array_map te_run twoFailures 0
      = (Inr [promise_resolve (left ''first''), promise_resolve (right 2),
              promise_resolve (left ''second'')], 0)"
    by (simp add: twoFailures_def taskLeft_def taskEither_def createTaskEither_def
        returns_def and_then_def)
  have rs: "array_map te_run allSucceed 0
      = (Inr [promise_resolve (right 1), promise_resolve (right 2), promise_resolve (right 3)], 0)"
    by (simp add: allSucceed_def taskEither_def createTaskEither_def returns_def and_then_def)
  have f1: "settle_each [2, 1, 0]
        [promise_resolve (left ''first''), promise_resolve (right 2),
         promise_resolve (left ''second'')] (0::nat)
      = (map (\<lambda>i. (i, Resolved (?ef ! i))) [2, 1, 0], 0)"
    by (simp add: promise_resolve_def left_def right_def)
  have f2: "settle_each [0, 1, 2]
        [promise_resolve (left ''first''), promise_resolve (right 2),
         promise_resolve (left ''second'')] (0::nat)
      = (map (\<lambda>i. (i, Resolved (?ef ! i))) [0, 1, 2], 0)"
    by (simp add: promise_resolve_def left_def right_def)
  have f3: "settle_each [2, 1, 0]
        [promise_resolve (right 1), promise_resolve (right 2), promise_resolve (right 3)] (0::nat)
      = (map (\<lambda>i. (i, Resolved (?es ! i))) [2, 1, 0], 0)"
    by (simp add: promise_resolve_def right_def)
  have a: "await (te_run (te_all [2, 1, 0] twoFailures)) 0 = (Resolved (Left ''first''), 0)"
    using te_all_first_error_in_input_order
      [THEN conjunct1, THEN mp, OF conjI [OF s1 conjI [OF l1 conjI [OF rf f1]]],
        of "[]" 0 "''first''", THEN conjunct2]
    by simp
  have b: "await (te_run (te_all [0, 1, 2] twoFailures)) 0 = (Resolved (Left ''first''), 0)"
    using te_all_first_error_in_input_order
      [THEN conjunct1, THEN mp, OF conjI [OF s2 conjI [OF l1 conjI [OF rf f2]]],
        of "[]" 0 "''first''", THEN conjunct2]
    by simp
  have c: "await (te_run (te_all [2, 1, 0] allSucceed)) 0 = (Resolved (Right [1, 2, 3]), 0)"
    using te_all_first_error_in_input_order
      [THEN conjunct1, THEN mp, OF conjI [OF s3 conjI [OF l3 conjI [OF rs f3]]],
        of "[1, 2, 3]" 0 "''none''", THEN conjunct1]
    by simp
  show ?thesis using s1 a b c by simp
qed

subsection \<open>Task and TaskEither: concurrent start\<close>

lemma array_map_task_probes:
  "array_map task_run (map (\<lambda>i. createTask (probe i (r i))) ls) log
     = (Inr (map (\<lambda>i. settles i (r i)) ls), log @ map Invoked ls)"
  by (induction ls arbitrary: log)
     (simp_all add: returns_def and_then_def createTask_def probe_def)

lemma array_map_te_probes:
  "array_map te_run (map (\<lambda>i. createTaskEither (probe i (r i))) ls) log
     = (Inr (map (\<lambda>i. settles i (r i)) ls), log @ map Invoked ls)"
  by (induction ls arbitrary: log)
     (simp_all add: returns_def and_then_def createTaskEither_def probe_def)

lemma array_map_returns: "array_map (\<lambda>i. returns (g i)) ls s = (Inr (map g ls), s)"
  by (induction ls arbitrary: s) (simp_all add: returns_def and_then_def)

lemma settle_each_probes:
  "set ord \<subseteq> {0..<n} \<Longrightarrow>
     settle_each ord (map (\<lambda>i. settles i (r i)) [0..<n]) log
       = (map (\<lambda>i. (i, r i)) ord, log @ map Settled ord)"
  by (induction ord arbitrary: log) (simp_all add: settles_def)

lemma promise_all_probes:
  assumes "schedule ord (length vs)"
  shows "promise_all ord (map (\<lambda>i. settles i (Resolved (f (vs ! i)))) [0..<length vs]) log
           = (Resolved (map f vs), log @ map Settled ord)"
proof -
  have sub: "set ord \<subseteq> {0..<length vs}"
    using schedule_set [OF assms] .
  then have meq: "map (\<lambda>i. (i, Resolved (map f vs ! i))) ord
      = map (\<lambda>i. (i, Resolved (f (vs ! i)))) ord"
    by (intro map_cong) auto
  have "settle_each ord (map (\<lambda>i. settles i (Resolved (f (vs ! i)))) [0..<length vs]) log
      = (map (\<lambda>i. (i, Resolved (map f vs ! i))) ord, log @ map Settled ord)"
    unfolding meq by (rule settle_each_probes [OF sub])
  then show ?thesis
    using assms by (intro promise_all_settle_each) simp_all
qed

lemma promise_all_plain_probes:
  assumes "schedule ord (length vs)"
  shows "promise_all ord (map (\<lambda>i. settles i (Resolved (vs ! i))) [0..<length vs]) log
           = (Resolved vs, log @ map Settled ord)"
  using promise_all_probes [OF assms, of "\<lambda>v. v" log] by simp

lemma map_over_indices:
  "map (\<lambda>i. F i (map f vs ! i)) [0..<length vs] = map (\<lambda>i. F i (f (vs ! i))) [0..<length vs]"
  by (rule map_cong) simp_all

lemma task_all_probes_started:
  "snd (task_run (task_all ord (task_probes rs)) log) = log @ map Invoked [0..<length rs]"
  by (simp add: task_all_def task_probes_def createTask_def and_then_def returns_def
      array_map_task_probes [unfolded createTask_def])

lemma task_all_probes_settled:
  "schedule ord (length vs) \<Longrightarrow>
     await (task_run (task_all ord (task_probes (map Resolved vs)))) log
       = (Resolved vs, log @ map Invoked [0..<length vs] @ map Settled ord)"
  by (simp add: task_all_def task_probes_def createTask_def and_then_def returns_def await_def
      array_map_task_probes [unfolded createTask_def] map_over_indices promise_all_plain_probes)

lemma te_all_probes_started:
  "snd (te_run (te_all ord (te_probes rs)) log) = log @ map Invoked [0..<length rs]"
  by (simp add: te_all_def te_probes_def createTaskEither_def and_then_def returns_def
      array_map_te_probes [unfolded createTaskEither_def])

lemma te_all_probes_settled:
  "schedule ord (length vs) \<Longrightarrow>
     await (te_run (te_all ord (te_probes (map (\<lambda>v. Resolved (Right v)) vs)))) log
       = (Resolved (Right vs), log @ map Invoked [0..<length vs] @ map Settled ord)"
  by (simp add: te_all_def te_probes_def createTaskEither_def and_then_def returns_def
      await_def then_value_def array_map_te_probes [unfolded createTaskEither_def]
      map_over_indices promise_all_probes all_loop_rights [of _ "[]", simplified])

lemma task_traverse_probes:
  "task_traverse ord [0..<length rs] (\<lambda>i. returns (createTask (probe i (rs ! i)))) log
     = (Inr (task_all ord (task_probes rs)), log)"
  by (simp add: task_traverse_def task_probes_def and_then_def array_map_returns returns_def)

lemma task_ap_probes_started:
  "snd (task_run (task_ap ord (createTask (probe 0 r0)) (createTask (probe 1 r1))) log)
     = log @ [Invoked 0, Invoked 1]"
  by (simp add: task_ap_def createTask_def and_then_def returns_def probe_def)

lemma task_ap_probes_settled:
  "await (task_run (task_ap ord (createTask (probe 0 (Resolved (\<lambda>a. returns (g a)))))
       (createTask (probe 1 (Resolved a))))) log
     = (Resolved (g a), log @ [Invoked 0, Invoked 1] @ pair_events ord)"
  by (cases ord)
     (simp_all add: task_ap_def createTask_def and_then_def returns_def probe_def await_def
        then_value_def promise_all2_def settles_def pair_events_def)

lemma task_zip_probes_started:
  "snd (task_run (task_zip ord (createTask (probe 0 r0)) (createTask (probe 1 r1))) log)
     = log @ [Invoked 0, Invoked 1]"
  by (simp add: task_zip_def task_ap_def createTask_def and_then_def returns_def probe_def)

lemma task_zip_probes_settled:
  "await (task_run (task_zip ord (createTask (probe 0 (Resolved v)))
       (createTask (probe 1 (Resolved a))))) log
     = (Resolved (v, a), log @ [Invoked 0, Invoked 1] @ pair_events ord)"
  by (cases ord)
     (simp_all add: task_zip_def task_ap_def createTask_def and_then_def returns_def probe_def
        await_def then_value_def promise_all2_def settles_def pair_events_def)

lemma te_ap_probes_started:
  "snd (te_run (te_ap ord (createTaskEither (probe 0 r0)) (createTaskEither (probe 1 r1))) log)
     = log @ [Invoked 0, Invoked 1]"
  by (simp add: te_ap_def createTaskEither_def and_then_def returns_def probe_def)

lemma te_ap_probes_settled:
  "await (te_run (te_ap ord (createTaskEither (probe 0 (Resolved (Right (\<lambda>a s. (g a, s))))))
       (createTaskEither (probe 1 (Resolved (Right a)))))) log
     = (Resolved (Right (g a)), log @ [Invoked 0, Invoked 1] @ pair_events ord)"
  by (cases ord)
     (simp_all add: te_ap_def createTaskEither_def and_then_def returns_def probe_def await_def
        then_value_def promise_all2_def settles_def pair_events_def either_ap_def
        either_match_def)

lemma te_zip_probes_started:
  "snd (te_run (te_zip ord (createTaskEither (probe 0 r0)) (createTaskEither (probe 1 r1))) log)
     = log @ [Invoked 0, Invoked 1]"
  by (simp add: te_zip_def te_map_def te_ap_def createTaskEither_def and_then_def returns_def
      probe_def)

lemma te_zip_probes_settled:
  "await (te_run (te_zip ord (createTaskEither (probe 0 (Resolved (Right v))))
       (createTaskEither (probe 1 (Resolved (Right a)))))) log
     = (Resolved (Right (v, a)), log @ [Invoked 0, Invoked 1] @ pair_events ord)"
  by (cases ord)
     (simp_all add: te_zip_def te_map_def te_ap_def createTaskEither_def and_then_def returns_def
        probe_def await_def then_value_def then_promise_def promise_all2_def settles_def
        pair_events_def either_ap_def either_match_def promise_resolve_def right_def)


lemma task_traverse_resolved_probes:
  "task_traverse ord [0..<length vs]
       (\<lambda>i. returns (createTask (probe i (map Resolved vs ! i)))) log
     = (Inr (task_all ord (task_probes (map Resolved vs))), log)"
  by (simp add: task_traverse_def task_probes_def and_then_def array_map_returns returns_def)

text \<open>
  C9. The callables under observation log their invocation and the settling of their
  promise. For \<open>all\<close>, \<open>sequence\<close> and \<open>traverse\<close> of \<open>Task\<close>, \<open>all\<close> of \<open>TaskEither\<close>, and
  \<open>ap\<close> and \<open>zip\<close> of both, whatever the outcomes of the elements: when the call of
  \<open>run()\<close> has returned, the log holds the invocation of every callable, in input order,
  and no settling, so no callable has waited for a sibling to settle. When every element
  resolves, in any order \<open>ord\<close> of settling, the settlings follow all the invocations in
  the log in the order \<open>ord\<close>, while the result holds the values in input order, and for
  \<open>zip\<close> the pair in the order (receiver, argument).
\<close>

theorem combinators_start_every_callable_first:
  "snd (task_run (task_all ord (task_probes rs)) log) = log @ map Invoked [0..<length rs]
   \<and> snd (task_run (task_sequence ord (task_probes rs)) log) = log @ map Invoked [0..<length rs]
   \<and> snd (and_then
         (task_traverse ord [0..<length rs] (\<lambda>i. returns (createTask (probe i (rs ! i)))))
         task_run log) = log @ map Invoked [0..<length rs]
   \<and> snd (te_run (te_all ord (te_probes es)) log) = log @ map Invoked [0..<length es]
   \<and> snd (task_run (task_ap po (createTask (probe 0 rf)) (createTask (probe 1 ra))) log)
       = log @ [Invoked 0, Invoked 1]
   \<and> snd (task_run (task_zip po (createTask (probe 0 rv)) (createTask (probe 1 ra))) log)
       = log @ [Invoked 0, Invoked 1]
   \<and> snd (te_run (te_ap po (createTaskEither (probe 0 ef)) (createTaskEither (probe 1 ea))) log)
       = log @ [Invoked 0, Invoked 1]
   \<and> snd (te_run (te_zip po (createTaskEither (probe 0 ev)) (createTaskEither (probe 1 ea))) log)
       = log @ [Invoked 0, Invoked 1]
   \<and> (schedule ord (length vs) \<longrightarrow>
        await (task_run (task_all ord (task_probes (map Resolved vs)))) log
          = (Resolved vs, log @ map Invoked [0..<length vs] @ map Settled ord)
        \<and> await (task_run (task_sequence ord (task_probes (map Resolved vs)))) log
          = (Resolved vs, log @ map Invoked [0..<length vs] @ map Settled ord)
        \<and> await (and_then
              (task_traverse ord [0..<length (map Resolved vs)]
                 (\<lambda>i. returns (createTask (probe i (map Resolved vs ! i)))))
              task_run) log
          = (Resolved vs, log @ map Invoked [0..<length vs] @ map Settled ord)
        \<and> await (te_run (te_all ord (te_probes (map (\<lambda>v. Resolved (Right v)) vs)))) log
          = (Resolved (Right vs), log @ map Invoked [0..<length vs] @ map Settled ord))
   \<and> await (task_run (task_ap po (createTask (probe 0 (Resolved (\<lambda>a. returns (g a)))))
         (createTask (probe 1 (Resolved a))))) log
       = (Resolved (g a), log @ [Invoked 0, Invoked 1] @ pair_events po)
   \<and> await (task_run (task_zip po (createTask (probe 0 (Resolved v)))
         (createTask (probe 1 (Resolved a))))) log
       = (Resolved (v, a), log @ [Invoked 0, Invoked 1] @ pair_events po)
   \<and> await (te_run (te_ap po (createTaskEither (probe 0 (Resolved (Right (\<lambda>a s. (g a, s))))))
         (createTaskEither (probe 1 (Resolved (Right a)))))) log
       = (Resolved (Right (g a)), log @ [Invoked 0, Invoked 1] @ pair_events po)
   \<and> await (te_run (te_zip po (createTaskEither (probe 0 (Resolved (Right v))))
         (createTaskEither (probe 1 (Resolved (Right a)))))) log
       = (Resolved (Right (v, a)), log @ [Invoked 0, Invoked 1] @ pair_events po)"
proof -
  have started:
    "snd (task_run (task_all ord (task_probes rs)) log) = log @ map Invoked [0..<length rs]"
    "snd (task_run (task_sequence ord (task_probes rs)) log) = log @ map Invoked [0..<length rs]"
    "snd (and_then
         (task_traverse ord [0..<length rs] (\<lambda>i. returns (createTask (probe i (rs ! i)))))
         task_run log) = log @ map Invoked [0..<length rs]"
    "snd (te_run (te_all ord (te_probes es)) log) = log @ map Invoked [0..<length es]"
    by (simp_all add: task_sequence_def task_all_probes_started te_all_probes_started
        and_then_def task_traverse_probes)
  have settled: "schedule ord (length vs) \<longrightarrow>
        await (task_run (task_all ord (task_probes (map Resolved vs)))) log
          = (Resolved vs, log @ map Invoked [0..<length vs] @ map Settled ord)
        \<and> await (task_run (task_sequence ord (task_probes (map Resolved vs)))) log
          = (Resolved vs, log @ map Invoked [0..<length vs] @ map Settled ord)
        \<and> await (and_then
              (task_traverse ord [0..<length (map Resolved vs)]
                 (\<lambda>i. returns (createTask (probe i (map Resolved vs ! i)))))
              task_run) log
          = (Resolved vs, log @ map Invoked [0..<length vs] @ map Settled ord)
        \<and> await (te_run (te_all ord (te_probes (map (\<lambda>v. Resolved (Right v)) vs)))) log
          = (Resolved (Right vs), log @ map Invoked [0..<length vs] @ map Settled ord)"
    by (simp add: task_sequence_def task_all_probes_settled te_all_probes_settled
        await_and_then task_traverse_resolved_probes)
  show ?thesis
    using started settled
    by (simp only: task_ap_probes_started task_zip_probes_started te_ap_probes_started
        te_zip_probes_started task_ap_probes_settled task_zip_probes_settled
        te_ap_probes_settled te_zip_probes_settled simp_thms)
qed


theorem combinators_start_every_callable_first_witness:
  "schedule [1, 0] (length [''a'', ''b''])
   \<and> snd (task_run (task_all [1, 0]
          (task_probes [Resolved ''a'', Rejected ''x'' :: (string, string) settled])) [])
       = [Invoked 0, Invoked 1]
   \<and> await (task_run (task_all [1, 0]
          (task_probes (map Resolved [''a'', ''b''] :: (string, string) settled list)))) []
       = (Resolved [''a'', ''b''], [Invoked 0, Invoked 1, Settled 1, Settled 0])
   \<and> await (te_run (te_zip SecondSettlesFirst
          (createTaskEither (probe 0 (Resolved (Right (1::int)) :: (string, (string, int) either) settled)))
          (createTaskEither (probe 1 (Resolved (Right ''z'')))))) []
       = (Resolved (Right (1, ''z'')), [Invoked 0, Invoked 1, Settled 1, Settled 0])"
proof -
  have s: "schedule [1, 0] (length [''a'', ''b''])"
    by (simp add: schedule_def upt_rec)
  note all = combinators_start_every_callable_first
    [where ord = "[1, 0]" and log = "[]" and vs = "[''a'', ''b'']"
       and rs = "[Resolved ''a'', Rejected ''x''] :: (string, string) settled list"
       and po = SecondSettlesFirst and v = "1::int" and a = "''z''"]
  have a: "snd (task_run (task_all [1, 0]
          (task_probes [Resolved ''a'', Rejected ''x'' :: (string, string) settled])) [])
       = [] @ map Invoked [0..<length [Resolved ''a'', Rejected ''x'' :: (string, string) settled]]"
    using all by blast
  have b: "await (task_run (task_all [1, 0]
          (task_probes (map Resolved [''a'', ''b''] :: (string, string) settled list)))) []
       = (Resolved [''a'', ''b''],
          [] @ map Invoked [0..<length [''a'', ''b'']] @ map Settled [1, 0])"
    using all s by blast
  have c: "await (te_run (te_zip SecondSettlesFirst
          (createTaskEither (probe 0 (Resolved (Right (1::int)) :: (string, (string, int) either) settled)))
          (createTaskEither (probe 1 (Resolved (Right ''z'')))))) []
       = (Resolved (Right (1, ''z'')), [] @ [Invoked 0, Invoked 1] @ pair_events SecondSettlesFirst)"
    using all by blast
  show ?thesis
    using s a b c by (simp add: upt_rec pair_events_def)
qed

end
